theory Spec2Isabelle
  imports Main "HOL-Library.AList"
begin

section \<open>Python values as seen by \<^verbatim>\<open>ads_mcp/utils.py\<close>\<close>

text \<open>
  The normalisation layer of \<^verbatim>\<open>src/ads_mcp/utils.py\<close> works on arbitrary Python
  objects and only ever probes them: \<^verbatim>\<open>is None\<close>, \<^verbatim>\<open>isinstance\<close>,
  \<^verbatim>\<open>type(value).__name__\<close>, \<^verbatim>\<open>getattr\<close>/\<^verbatim>\<open>hasattr\<close>, iteration,
  \<^verbatim>\<open>.items()\<close>, \<^verbatim>\<open>_pb.ListFields()\<close>, \<^verbatim>\<open>dir\<close>, \<^verbatim>\<open>callable\<close>,
  \<^verbatim>\<open>MessageToDict\<close> and \<^verbatim>\<open>str\<close>.  A value of the model is therefore either one
  of the builtin values the code can produce itself, or an object that carries the outcome
  of each of these probes.  Every probe that can raise in Python returns a sum, \<open>Inl\<close> being
  the exception.

  Only subclasses of \<^verbatim>\<open>Exception\<close> are values of \<open>exn\<close>: these are what
  \<^verbatim>\<open>except Exception\<close> catches.  Values are finite trees (no cyclic containers, no
  unbounded iterators), and a float is identified with its \<^verbatim>\<open>repr\<close>.
\<close>

datatype exn =
    AttributeError string
  | TypeError string
  | Raised string  \<comment> \<open>any other subclass of Exception, by class name\<close>

text \<open>The class of an object: what \<^verbatim>\<open>type(value)\<close> and \<^verbatim>\<open>isinstance\<close> tell the code.\<close>

record pytype =
  ty_module :: string  \<comment> \<open>\<^verbatim>\<open>type(value).__module__\<close>\<close>
  ty_name :: string  \<comment> \<open>\<^verbatim>\<open>type(value).__name__\<close>\<close>
  ty_mapping :: bool  \<comment> \<open>a \<^verbatim>\<open>collections.abc.Mapping\<close>\<close>
  ty_proto_message :: bool  \<comment> \<open>a \<^verbatim>\<open>proto.Message\<close> (proto-plus)\<close>
  ty_protobuf_message :: bool  \<comment> \<open>a \<^verbatim>\<open>google.protobuf.message.Message\<close>\<close>
  ty_callable :: bool  \<comment> \<open>\<^verbatim>\<open>callable(value)\<close>\<close>

datatype pyval =
    PyNone
  | PyBool bool
  | PyInt int
  | PyFloat string
  | PyStr string
  | PyBytes string  \<comment> \<open>\<^verbatim>\<open>bytes\<close> or \<^verbatim>\<open>bytearray\<close>\<close>
  | PyEnum (enum_module: string) (enum_class: string) (enum_name: string) (enum_number: int)
      \<comment> \<open>a member of a \<^verbatim>\<open>proto.Enum\<close>\<close>
  | PyList "pyval list"
  | PyDict "(pyval \<times> pyval) list"  \<comment> \<open>a builtin dict, items in insertion order\<close>
  | PyObject
      (obj_type: pytype)
      (obj_attrs: "(string \<times> (exn + pyval)) list")
        \<comment> \<open>outcome of \<^verbatim>\<open>getattr(value, name)\<close>, in \<^verbatim>\<open>dir(value)\<close> order;
            a name not listed raises AttributeError\<close>
      (obj_iter: "pyval list \<times> exn option")
        \<comment> \<open>\<^verbatim>\<open>for v in value\<close>: the elements yielded, then the exception if one ends it\<close>
      (obj_items: "(pyval \<times> pyval) list \<times> exn option")
        \<comment> \<open>\<^verbatim>\<open>for k, v in value.items()\<close>, likewise\<close>
      (obj_fields: "exn + (string \<times> pyval) list")
        \<comment> \<open>\<^verbatim>\<open>value.ListFields()\<close>: descriptor name and value of each populated field\<close>
      (obj_to_dict: "exn + pyval")
        \<comment> \<open>\<^verbatim>\<open>MessageToDict(value, preserving_proto_field_name=True)\<close>\<close>
      (obj_str: "exn + string")  \<comment> \<open>\<^verbatim>\<open>str(value)\<close>\<close>

text \<open>
  What the interpreter provides and this repository does not define: attributes of builtin
  values other than the ones modelled below, the printable form of builtin values other
  than \<^verbatim>\<open>str\<close>, and whether \<^verbatim>\<open>google.protobuf\<close> could be imported (lines 33-38).
  Every function takes it as a parameter.
\<close>

record runtime =
  rt_getattr :: "pyval \<Rightarrow> string \<Rightarrow> exn + pyval"
  rt_str :: "pyval \<Rightarrow> exn + string"
  rt_protobuf :: bool

subsection \<open>Probes\<close>

fun py_type :: "pyval \<Rightarrow> string \<times> string" where
  "py_type PyNone = (''builtins'', ''NoneType'')"
| "py_type (PyBool _) = (''builtins'', ''bool'')"
| "py_type (PyInt _) = (''builtins'', ''int'')"
| "py_type (PyFloat _) = (''builtins'', ''float'')"
| "py_type (PyStr _) = (''builtins'', ''str'')"
| "py_type (PyBytes _) = (''builtins'', ''bytes'')"
| "py_type (PyEnum m c _ _) = (m, c)"
| "py_type (PyList _) = (''builtins'', ''list'')"
| "py_type (PyDict _) = (''builtins'', ''dict'')"
| "py_type (PyObject ty _ _ _ _ _ _) = (ty_module ty, ty_name ty)"

fun isinstance_str_bytes :: "pyval \<Rightarrow> bool" where
  "isinstance_str_bytes (PyStr _) = True"
| "isinstance_str_bytes (PyBytes _) = True"
| "isinstance_str_bytes _ = False"

fun isinstance_Enum :: "pyval \<Rightarrow> bool" where
  "isinstance_Enum (PyEnum _ _ _ _) = True"
| "isinstance_Enum _ = False"

fun isinstance_Mapping :: "pyval \<Rightarrow> bool" where
  "isinstance_Mapping (PyDict _) = True"
| "isinstance_Mapping (PyObject ty _ _ _ _ _ _) = ty_mapping ty"
| "isinstance_Mapping _ = False"

fun isinstance_Message :: "pyval \<Rightarrow> bool" where
  "isinstance_Message (PyObject ty _ _ _ _ _ _) = ty_proto_message ty"
| "isinstance_Message _ = False"

fun isinstance_ProtobufMessage :: "pyval \<Rightarrow> bool" where
  "isinstance_ProtobufMessage (PyObject ty _ _ _ _ _ _) = ty_protobuf_message ty"
| "isinstance_ProtobufMessage _ = False"

fun callable :: "pyval \<Rightarrow> bool" where
  "callable (PyObject ty _ _ _ _ _ _) = ty_callable ty"
| "callable _ = False"

text \<open>
  The bound special method a builtin container answers with for \<^verbatim>\<open>__iter__\<close>,
  \<^verbatim>\<open>__len__\<close> and \<^verbatim>\<open>__getitem__\<close>.
\<close>

definition method_wrapper :: pyval where
  "method_wrapper =
     PyObject \<lparr>ty_module = ''builtins'', ty_name = ''method-wrapper'', ty_mapping = False,
                ty_proto_message = False, ty_protobuf_message = False, ty_callable = True\<rparr>
       [] ([], Some (TypeError ''not iterable'')) ([], Some (AttributeError ''items''))
       (Inl (AttributeError ''ListFields'')) (Inl (AttributeError ''DESCRIPTOR''))
       (Inr ''<method-wrapper>'')"

definition sequence_dunders :: "string list" where
  "sequence_dunders = [''__iter__'', ''__len__'', ''__getitem__'']"

fun has_sequence_dunders :: "pyval \<Rightarrow> bool" where
  "has_sequence_dunders (PyStr _) = True"
| "has_sequence_dunders (PyBytes _) = True"
| "has_sequence_dunders (PyList _) = True"
| "has_sequence_dunders (PyDict _) = True"
| "has_sequence_dunders _ = False"

text \<open>
  \<^verbatim>\<open>getattr(obj, name)\<close>.  An object answers from its own table.  A builtin value has
  the three sequence special methods exactly when it is a str, bytes, list or dict; an
  enum member has \<^verbatim>\<open>name\<close> and \<^verbatim>\<open>value\<close>; every other attribute of a builtin value
  is the runtime's.
\<close>

fun py_getattr :: "runtime \<Rightarrow> pyval \<Rightarrow> string \<Rightarrow> exn + pyval" where
  "py_getattr rt (PyObject ty attrs it items fs d s) n =
     (case map_of attrs n of Some r \<Rightarrow> r | None \<Rightarrow> Inl (AttributeError n))"
| "py_getattr rt (PyEnum m c nm k) n =
     (if n = ''name'' then Inr (PyStr nm)
      else if n = ''value'' then Inr (PyInt k)
      else if n \<in> set sequence_dunders then Inl (AttributeError n)
      else rt_getattr rt (PyEnum m c nm k) n)"
| "py_getattr rt v n =
     (if n \<in> set sequence_dunders
      then (if has_sequence_dunders v then Inr method_wrapper else Inl (AttributeError n))
      else rt_getattr rt v n)"

text \<open>
  \<^verbatim>\<open>hasattr\<close> answers False on AttributeError only; any other exception of the
  attribute access propagates.
\<close>

definition py_hasattr :: "runtime \<Rightarrow> pyval \<Rightarrow> string \<Rightarrow> exn + bool" where
  "py_hasattr rt v n =
     (case py_getattr rt v n of
        Inr _ \<Rightarrow> Inr True
      | Inl (AttributeError _) \<Rightarrow> Inr False
      | Inl e \<Rightarrow> Inl e)"

text \<open>\<^verbatim>\<open>getattr(obj, name, default)\<close>: the default replaces AttributeError only.\<close>

definition py_getattr_default :: "runtime \<Rightarrow> pyval \<Rightarrow> string \<Rightarrow> pyval \<Rightarrow> exn + pyval" where
  "py_getattr_default rt v n dflt =
     (case py_getattr rt v n of
        Inr x \<Rightarrow> Inr x
      | Inl (AttributeError _) \<Rightarrow> Inr dflt
      | Inl e \<Rightarrow> Inl e)"

text \<open>\<^verbatim>\<open>s.split(sep)\<close> for a one-character separator: never empty, keeps empty parts.\<close>

fun py_split :: "char \<Rightarrow> string \<Rightarrow> string list" where
  "py_split sep [] = [[]]"
| "py_split sep (c # cs) =
     (if c = sep then [] # py_split sep cs
      else (case py_split sep cs of p # ps \<Rightarrow> (c # p) # ps | [] \<Rightarrow> [[c]]))"

definition endswith :: "string \<Rightarrow> char \<Rightarrow> bool" where
  "endswith s c = (s \<noteq> [] \<and> last s = c)"

definition startswith :: "string \<Rightarrow> string \<Rightarrow> bool" where
  "startswith s p = (take (length p) s = p)"

section \<open>Nested field resolver (lines 143-178)\<close>

text \<open>
  \<^verbatim>\<open>_get_attr_with_reserved_fallback\<close> (the leading underscore is dropped: not an
  Isabelle name).  Each \<^verbatim>\<open>try: return getattr(...) except Exception: pass\<close> is one
  case split; the last statement raises \<^verbatim>\<open>AttributeError(name)\<close>.
\<close>

definition get_attr_with_reserved_fallback :: "runtime \<Rightarrow> pyval \<Rightarrow> string \<Rightarrow> exn + pyval" where
  "get_attr_with_reserved_fallback rt obj name =
     (if obj = PyNone then Inl (AttributeError name)
      else case py_getattr rt obj name of
        Inr v \<Rightarrow> Inr v
      | Inl _ \<Rightarrow>
         (case py_getattr rt obj (name @ ''_'') of
            Inr v \<Rightarrow> Inr v
          | Inl _ \<Rightarrow>
             (case (if endswith name CHR ''_'' then py_getattr rt obj (butlast name)
                    else Inl (AttributeError name)) of
                Inr v \<Rightarrow> Inr v
              | Inl _ \<Rightarrow> Inl (AttributeError name))))"

text \<open>The loop of \<^verbatim>\<open>get_nested_attr_safe\<close> over the parts of the path.\<close>

fun walk_parts :: "runtime \<Rightarrow> pyval \<Rightarrow> string list \<Rightarrow> exn + pyval" where
  "walk_parts rt cur [] = Inr cur"
| "walk_parts rt cur (part # parts) =
     (case get_attr_with_reserved_fallback rt cur part of
        Inl e \<Rightarrow> Inl e
      | Inr nxt \<Rightarrow> walk_parts rt nxt parts)"

definition get_nested_attr_safe :: "runtime \<Rightarrow> pyval \<Rightarrow> string \<Rightarrow> exn + pyval" where
  "get_nested_attr_safe rt obj path = walk_parts rt obj (py_split CHR ''.'' path)"

lemma py_split_nonempty: "py_split sep s \<noteq> []"
  by (induction s) (auto split: list.splits)


section \<open>Value normaliser (lines 104-140 and 181-252)\<close>

subsection \<open>Results with a log\<close>

text \<open>
  \<^verbatim>\<open>format_output_value\<close> and \<^verbatim>\<open>format_output_row\<close> log through
  \<^verbatim>\<open>logger.exception\<close>.  A computation returns its outcome together with the records
  it logged, in order; records logged before an exception propagates stay logged.
\<close>

datatype log_record =
    ValueFailed "string \<times> string"
      \<comment> \<open>"format\_output\_value failed for \%s", with the type of the value\<close>
  | FieldFailed string
      \<comment> \<open>"Failed to extract field '\%s'", with the path\<close>

type_synonym 'a res = "(exn + 'a) \<times> log_record list"

text \<open>
  \<^verbatim>\<open>logger.exception(...)\<close> appends a record; the standard \<^verbatim>\<open>logging\<close> module
  handles the errors of its handlers itself, so the call returns.  The code wraps every
  call in \<^verbatim>\<open>try: ... except Exception: pass\<close>: \<open>try_log\<close> is that statement, with
  the branch for a logger that raises.
\<close>

definition logger_exception :: "log_record \<Rightarrow> exn + log_record list" where
  "logger_exception r = Inr [r]"

definition try_log :: "log_record \<Rightarrow> log_record list" where
  "try_log r = (case logger_exception r of Inr l \<Rightarrow> l | Inl _ \<Rightarrow> [])"

subsection \<open>More probes\<close>

fun py_str :: "runtime \<Rightarrow> pyval \<Rightarrow> exn + string" where
  "py_str rt (PyStr s) = Inr s"
| "py_str rt (PyObject ty attrs it items fs d s) = s"
| "py_str rt v = rt_str rt v"

fun py_iter :: "pyval \<Rightarrow> pyval list \<times> exn option" where
  "py_iter (PyList xs) = (xs, None)"
| "py_iter (PyObject ty attrs it items fs d s) = it"
| "py_iter (PyStr s) = (map (\<lambda>c. PyStr [c]) s, None)"
| "py_iter (PyBytes s) = (map (\<lambda>c. PyInt (of_char c)) s, None)"
| "py_iter (PyDict kvs) = (map fst kvs, None)"
| "py_iter _ = ([], Some (TypeError ''object is not iterable''))"

fun py_items :: "pyval \<Rightarrow> (pyval \<times> pyval) list \<times> exn option" where
  "py_items (PyDict kvs) = (kvs, None)"
| "py_items (PyObject ty attrs it items fs d s) = items"
| "py_items _ = ([], Some (AttributeError ''items''))"

fun py_ListFields :: "pyval \<Rightarrow> exn + (string \<times> pyval) list" where
  "py_ListFields (PyObject ty attrs it items fs d s) = fs"
| "py_ListFields _ = Inl (TypeError ''object is not callable'')"

fun MessageToDict :: "pyval \<Rightarrow> exn + pyval" where
  "MessageToDict (PyObject ty attrs it items fs d s) = d"
| "MessageToDict _ = Inl (AttributeError ''DESCRIPTOR'')"

text \<open>\<^verbatim>\<open>dir(value)\<close>: the names of the attribute table, each once.\<close>

fun py_dir :: "pyval \<Rightarrow> string list" where
  "py_dir (PyObject ty attrs it items fs d s) = remdups (map fst attrs)"
| "py_dir _ = []"

text \<open>A dict with string keys built by the code, as a value.\<close>

definition py_dict :: "(string \<times> pyval) list \<Rightarrow> pyval" where
  "py_dict kvs = PyDict (map (\<lambda>(k, v). (PyStr k, v)) kvs)"

subsection \<open>Repeated-container detection (lines 104-140)\<close>

definition is_repeated_container :: "runtime \<Rightarrow> pyval \<Rightarrow> exn + bool" where
  "is_repeated_container rt v =
     (if v = PyNone then Inr False
      else if isinstance_str_bytes v then Inr False
      else if isinstance_Mapping v then Inr False
      else if isinstance_Message v then Inr False
      else if startswith (fst (py_type v)) ''google._upb._message''
              \<and> startswith (snd (py_type v)) ''Repeated'' then Inr True
      else case py_hasattr rt v ''__iter__'' of
        Inl e \<Rightarrow> Inl e
      | Inr True \<Rightarrow> Inr True
      | Inr False \<Rightarrow>
         (case py_hasattr rt v ''__len__'' of
            Inl e \<Rightarrow> Inl e
          | Inr False \<Rightarrow> Inr False
          | Inr True \<Rightarrow>
             (case py_hasattr rt v ''__getitem__'' of
                Inl e \<Rightarrow> Inl e
              | Inr True \<Rightarrow> Inr True
              | Inr False \<Rightarrow> Inr False)))"

subsection \<open>The comprehensions and loops of \<^verbatim>\<open>format_output_value\<close>\<close>

text \<open>
  Each takes the recursive call as the parameter \<open>F\<close>.  A dict under construction is an
  association list in insertion order; \<^verbatim>\<open>out[k] = v\<close> is \<^const>\<open>AList.update\<close>, which
  overwrites the value of a key already present and appends a new key.
\<close>

text \<open>The iteration itself raising after the elements it yielded.\<close>

definition then_raise :: "exn option \<Rightarrow> 'a res \<Rightarrow> 'a res" where
  "then_raise eo r =
     (case r of
        (Inl e, l) \<Rightarrow> (Inl e, l)
      | (Inr x, l) \<Rightarrow> (case eo of None \<Rightarrow> (Inr x, l) | Some e \<Rightarrow> (Inl e, l)))"

text \<open>\<^verbatim>\<open>{str(k): format_output_value(v) for k, v in value.items()}\<close> (line 207).\<close>

fun dict_comp ::
  "runtime \<Rightarrow> (pyval \<Rightarrow> pyval res) \<Rightarrow> (pyval \<times> pyval) list \<Rightarrow> (string \<times> pyval) list
     \<Rightarrow> (string \<times> pyval) list res" where
  "dict_comp rt F [] out = (Inr out, [])"
| "dict_comp rt F ((k, v) # kvs) out =
     (case py_str rt k of
        Inl e \<Rightarrow> (Inl e, [])
      | Inr s \<Rightarrow>
         (case F v of
            (Inl e, l) \<Rightarrow> (Inl e, l)
          | (Inr w, l) \<Rightarrow>
             (case dict_comp rt F kvs (AList.update s w out) of (r, l') \<Rightarrow> (r, l @ l'))))"

text \<open>\<^verbatim>\<open>[format_output_value(v) for v in value]\<close> (line 211).\<close>

fun list_comp :: "(pyval \<Rightarrow> pyval res) \<Rightarrow> pyval list \<Rightarrow> pyval list res" where
  "list_comp F [] = (Inr [], [])"
| "list_comp F (v # vs) =
     (case F v of
        (Inl e, l) \<Rightarrow> (Inl e, l)
      | (Inr w, l) \<Rightarrow>
         (case list_comp F vs of
            (Inl e, l') \<Rightarrow> (Inl e, l @ l')
          | (Inr ws, l') \<Rightarrow> (Inr (w # ws), l @ l')))"

text \<open>The loop over \<^verbatim>\<open>pb.ListFields()\<close> (lines 218-219).\<close>

fun fields_loop ::
  "(pyval \<Rightarrow> pyval res) \<Rightarrow> (string \<times> pyval) list \<Rightarrow> (string \<times> pyval) list
     \<Rightarrow> (string \<times> pyval) list res" where
  "fields_loop F [] out = (Inr out, [])"
| "fields_loop F ((n, v) # fs) out =
     (case F v of
        (Inl e, l) \<Rightarrow> (Inl e, l)
      | (Inr w, l) \<Rightarrow>
         (case fields_loop F fs (AList.update n w out) of (r, l') \<Rightarrow> (r, l @ l')))"

text \<open>The best-effort scan over \<^verbatim>\<open>dir(value)\<close> (lines 224-233).\<close>

fun scan_loop ::
  "runtime \<Rightarrow> (pyval \<Rightarrow> pyval res) \<Rightarrow> pyval \<Rightarrow> string list \<Rightarrow> (string \<times> pyval) list
     \<Rightarrow> (string \<times> pyval) list res" where
  "scan_loop rt F obj [] out = (Inr out, [])"
| "scan_loop rt F obj (attr # attrs) out =
     (if startswith attr ''_'' then scan_loop rt F obj attrs out
      else case py_getattr rt obj attr of
        Inl _ \<Rightarrow> scan_loop rt F obj attrs out
      | Inr v \<Rightarrow>
         if callable v then scan_loop rt F obj attrs out
         else (case F v of
            (Inl e, l) \<Rightarrow> (Inl e, l)
          | (Inr w, l) \<Rightarrow>
             (case scan_loop rt F obj attrs (AList.update attr w out) of
                (r, l') \<Rightarrow> (r, l @ l'))))"

definition as_dict :: "(string \<times> pyval) list res \<Rightarrow> pyval res" where
  "as_dict r = (case r of (Inl e, l) \<Rightarrow> (Inl e, l) | (Inr kvs, l) \<Rightarrow> (Inr (py_dict kvs), l))"

definition as_list :: "pyval list res \<Rightarrow> pyval res" where
  "as_list r = (case r of (Inl e, l) \<Rightarrow> (Inl e, l) | (Inr xs, l) \<Rightarrow> (Inr (PyList xs), l))"

subsection \<open>\<^verbatim>\<open>format_output_value\<close>\<close>

text \<open>
  The branches of the \<^verbatim>\<open>try\<close> body that convert children; \<open>F\<close> is the recursive
  call.  Line 202: \<^verbatim>\<open>tname == "AdTextAsset" and hasattr(value, "text")\<close>.
\<close>

definition is_text_asset :: "runtime \<Rightarrow> pyval \<Rightarrow> exn + bool" where
  "is_text_asset rt v =
     (if snd (py_type v) = ''AdTextAsset'' then py_hasattr rt v ''text'' else Inr False)"

text \<open>Line 207.\<close>

definition convert_mapping :: "runtime \<Rightarrow> (pyval \<Rightarrow> pyval res) \<Rightarrow> pyval \<Rightarrow> pyval res" where
  "convert_mapping rt F v =
     as_dict (then_raise (snd (py_items v)) (dict_comp rt F (fst (py_items v)) []))"

text \<open>Line 211.\<close>

definition convert_container :: "(pyval \<Rightarrow> pyval res) \<Rightarrow> pyval \<Rightarrow> pyval res" where
  "convert_container F v =
     as_list (then_raise (snd (py_iter v)) (list_comp F (fst (py_iter v))))"

text \<open>Lines 215-234.\<close>

definition convert_message :: "runtime \<Rightarrow> (pyval \<Rightarrow> pyval res) \<Rightarrow> pyval \<Rightarrow> pyval res" where
  "convert_message rt F v =
     (case py_getattr_default rt v ''_pb'' PyNone of
        Inl e \<Rightarrow> (Inl e, [])
      | Inr pb \<Rightarrow>
         (case (if pb \<noteq> PyNone then py_hasattr rt pb ''ListFields'' else Inr False) of
            Inl e \<Rightarrow> (Inl e, [])
          | Inr True \<Rightarrow>
             (case py_ListFields pb of
                Inl e \<Rightarrow> (Inl e, [])
              | Inr fs \<Rightarrow> as_dict (fields_loop F fs []))
          | Inr False \<Rightarrow> as_dict (scan_loop rt F v (py_dir v) [])))"

text \<open>The body of the \<^verbatim>\<open>try\<close> (lines 192-245), in the order of the source.\<close>

definition try_body :: "runtime \<Rightarrow> (pyval \<Rightarrow> pyval res) \<Rightarrow> pyval \<Rightarrow> pyval res" where
  "try_body rt F v =
     (if v = PyNone then (Inr PyNone, [])
      else if isinstance_Enum v then (Inr (PyStr (enum_name v)), [])
      else case is_text_asset rt v of
        Inl e \<Rightarrow> (Inl e, [])
      | Inr True \<Rightarrow> (py_getattr rt v ''text'', [])
      | Inr False \<Rightarrow>
         if isinstance_Mapping v then convert_mapping rt F v
         else case is_repeated_container rt v of
           Inl e \<Rightarrow> (Inl e, [])
         | Inr True \<Rightarrow> convert_container F v
         | Inr False \<Rightarrow>
            if isinstance_Message v then convert_message rt F v
            else if rt_protobuf rt \<and> isinstance_ProtobufMessage v then (MessageToDict v, [])
            else (Inr v, []))"

text \<open>
  The handler (lines 247-252): log, then \<^verbatim>\<open>return str(value)\<close>, which is itself
  outside any \<^verbatim>\<open>try\<close>.
\<close>

definition except_handler :: "runtime \<Rightarrow> pyval \<Rightarrow> log_record list \<Rightarrow> pyval res" where
  "except_handler rt v l =
     (case py_str rt v of
        Inr s \<Rightarrow> (Inr (PyStr s), l @ try_log (ValueFailed (py_type v)))
      | Inl e \<Rightarrow> (Inl e, l @ try_log (ValueFailed (py_type v))))"

lemma dict_comp_cong:
  "(\<And>k v. (k, v) \<in> set kvs \<Longrightarrow> F v = G v) \<Longrightarrow> dict_comp rt F kvs out = dict_comp rt G kvs out"
proof (induction kvs arbitrary: out)
  case Nil
  show ?case by simp
next
  case (Cons p kvs)
  obtain k v where p: "p = (k, v)" by (cases p)
  have "(k, v) \<in> set (p # kvs)" by (simp add: p)
  then have hd: "F v = G v" by (rule Cons.prems)
  have tl: "dict_comp rt F kvs o' = dict_comp rt G kvs o'" for o'
  proof (rule Cons.IH)
    fix k' v' assume "(k', v') \<in> set kvs"
    then have "(k', v') \<in> set (p # kvs)" by simp
    then show "F v' = G v'" by (rule Cons.prems)
  qed
  show ?case by (simp add: p hd tl split: sum.splits prod.splits)
qed

lemma list_comp_cong:
  "(\<And>v. v \<in> set vs \<Longrightarrow> F v = G v) \<Longrightarrow> list_comp F vs = list_comp G vs"
proof (induction vs)
  case Nil
  show ?case by simp
next
  case (Cons v vs)
  have hd: "F v = G v" by (rule Cons.prems) simp
  have tl: "list_comp F vs = list_comp G vs"
  proof (rule Cons.IH)
    fix v' assume "v' \<in> set vs"
    then have "v' \<in> set (v # vs)" by simp
    then show "F v' = G v'" by (rule Cons.prems)
  qed
  show ?case by (simp add: hd tl split: sum.splits prod.splits)
qed

lemma fields_loop_cong:
  "(\<And>n v. (n, v) \<in> set fs \<Longrightarrow> F v = G v) \<Longrightarrow> fields_loop F fs out = fields_loop G fs out"
proof (induction fs arbitrary: out)
  case Nil
  show ?case by simp
next
  case (Cons p fs)
  obtain n v where p: "p = (n, v)" by (cases p)
  have "(n, v) \<in> set (p # fs)" by (simp add: p)
  then have hd: "F v = G v" by (rule Cons.prems)
  have tl: "fields_loop F fs o' = fields_loop G fs o'" for o'
  proof (rule Cons.IH)
    fix n' v' assume "(n', v') \<in> set fs"
    then have "(n', v') \<in> set (p # fs)" by simp
    then show "F v' = G v'" by (rule Cons.prems)
  qed
  show ?case by (simp add: p hd tl split: sum.splits prod.splits)
qed

lemma scan_loop_cong:
  "(\<And>n v. py_getattr rt obj n = Inr v \<Longrightarrow> F v = G v) \<Longrightarrow>
     scan_loop rt F obj names out = scan_loop rt G obj names out"
proof (induction names arbitrary: out)
  case Nil
  show ?case by simp
next
  case (Cons a names)
  have tl: "scan_loop rt F obj names o' = scan_loop rt G obj names o'" for o'
    by (rule Cons.IH) (rule Cons.prems)
  show ?case
  proof (cases "py_getattr rt obj a")
    case (Inl e)
    then show ?thesis by (simp add: tl)
  next
    case (Inr x)
    then have "F x = G x" by (rule Cons.prems)
    then show ?thesis using Inr by (simp add: tl split: sum.splits prod.splits)
  qed
qed

lemma size_items: "(k, x) \<in> set (fst (py_items v)) \<Longrightarrow> size x < size v"
proof (cases v)
  case (PyDict kvs)
  assume "(k, x) \<in> set (fst (py_items v))"
  then have "(k, x) \<in> set kvs" using PyDict by simp
  then have "size_prod size size (k, x) \<le> size_list (size_prod size size) kvs"
    by (rule size_list_estimation') simp
  then show ?thesis using PyDict by simp
next
  case (PyObject ty attrs it items fs d s)
  assume "(k, x) \<in> set (fst (py_items v))"
  then have "(k, x) \<in> set (fst items)" using PyObject by simp
  then have "size_prod size size (k, x) \<le> size_list (size_prod size size) (fst items)"
    by (rule size_list_estimation') simp
  then show ?thesis using PyObject by (cases items) simp
qed simp_all

lemma size_iter:
  "\<not> isinstance_str_bytes v \<Longrightarrow> \<not> isinstance_Mapping v \<Longrightarrow> x \<in> set (fst (py_iter v)) \<Longrightarrow> size x < size v"
proof (cases v)
  case (PyList xs)
  assume "x \<in> set (fst (py_iter v))"
  then have "x \<in> set xs" using PyList by simp
  then have "size x \<le> size_list size xs" by (rule size_list_estimation') simp
  then show ?thesis using PyList by simp
next
  case (PyObject ty attrs it items fs d s)
  assume "x \<in> set (fst (py_iter v))"
  then have "x \<in> set (fst it)" using PyObject by simp
  then have "size x \<le> size_list size (fst it)" by (rule size_list_estimation') simp
  then show ?thesis using PyObject by (cases it) simp
qed simp_all

lemma size_map_of:
  "map_of attrs n = Some (Inr x) \<Longrightarrow>
     size x < size_list (size_prod (\<lambda>x. 0) (size_sum (\<lambda>x. 0) size)) attrs"
proof -
  assume "map_of attrs n = Some (Inr x)"
  then have "(n, Inr x) \<in> set attrs" by (rule map_of_SomeD)
  then have "size_prod (\<lambda>x. 0) (size_sum (\<lambda>x. 0) size) (n, Inr x)
      \<le> size_list (size_prod (\<lambda>x. 0) (size_sum (\<lambda>x. 0) size)) attrs"
    by (rule size_list_estimation') simp
  then show ?thesis by simp
qed

lemma size_getattr:
  "py_getattr rt (PyObject ty attrs it items fs d s) n = Inr x \<Longrightarrow>
     size x < size (PyObject ty attrs it items fs d s)"
  using size_map_of [of attrs n x] by (simp split: option.splits)

lemma size_ListFields: "py_ListFields pb = Inr fs \<Longrightarrow> (n, x) \<in> set fs \<Longrightarrow> size x < size pb"
proof (cases pb)
  case (PyObject ty attrs it items fs' d s)
  assume "py_ListFields pb = Inr fs" and mem: "(n, x) \<in> set fs"
  then have fs': "fs' = Inr fs" using PyObject by simp
  from mem have "size_prod (\<lambda>x. 0) size (n, x) \<le> size_list (size_prod (\<lambda>x. 0) size) fs"
    by (rule size_list_estimation') simp
  then show ?thesis using PyObject fs' by simp
qed simp_all

lemma is_repeated_container_TrueD:
  "is_repeated_container rt v = Inr True \<Longrightarrow> \<not> isinstance_str_bytes v \<and> \<not> isinstance_Mapping v"
  unfolding is_repeated_container_def by (simp split: if_splits)

lemma size_pb:
  assumes "isinstance_Message v" and "py_getattr_default rt v ''_pb'' PyNone = Inr pb"
    and "pb \<noteq> PyNone"
  shows "size pb < size v"
proof (cases v)
  case (PyObject ty attrs it items fs d s)
  from assms(2,3) have "py_getattr rt v ''_pb'' = Inr pb"
    unfolding py_getattr_default_def by (simp split: sum.splits exn.splits)
  then show ?thesis unfolding PyObject by (rule size_getattr)
qed (use assms(1) in simp_all)

lemma convert_mapping_cong:
  assumes F: "\<And>x. size x < size v \<Longrightarrow> F x = G x"
  shows "convert_mapping rt F v = convert_mapping rt G v"
proof -
  have "dict_comp rt F (fst (py_items v)) [] = dict_comp rt G (fst (py_items v)) []"
  proof (rule dict_comp_cong)
    fix k x assume "(k, x) \<in> set (fst (py_items v))"
    then have "size x < size v" by (rule size_items)
    then show "F x = G x" by (rule F)
  qed
  then show ?thesis unfolding convert_mapping_def by simp
qed

lemma convert_container_cong:
  assumes F: "\<And>x. size x < size v \<Longrightarrow> F x = G x"
    and rep: "is_repeated_container rt v = Inr True"
  shows "convert_container F v = convert_container G v"
proof -
  have "list_comp F (fst (py_iter v)) = list_comp G (fst (py_iter v))"
  proof (rule list_comp_cong)
    fix x assume "x \<in> set (fst (py_iter v))"
    with is_repeated_container_TrueD [OF rep] have "size x < size v"
      by (simp add: size_iter)
    then show "F x = G x" by (rule F)
  qed
  then show ?thesis unfolding convert_container_def by simp
qed

lemma convert_message_cong:
  assumes F: "\<And>x. size x < size v \<Longrightarrow> F x = G x"
    and msg: "isinstance_Message v"
  shows "convert_message rt F v = convert_message rt G v"
proof -
  have scan: "scan_loop rt F v (py_dir v) [] = scan_loop rt G v (py_dir v) []"
  proof (rule scan_loop_cong)
    fix n x assume *: "py_getattr rt v n = Inr x"
    have "size x < size v"
    proof (cases v)
      case (PyObject ty attrs it items fs d s)
      from * show ?thesis unfolding PyObject by (rule size_getattr)
    qed (use msg in simp_all)
    then show "F x = G x" by (rule F)
  qed
  show ?thesis
  proof (cases "py_getattr_default rt v ''_pb'' PyNone")
    case (Inl e)
    then show ?thesis unfolding convert_message_def by simp
  next
    case (Inr pb)
    show ?thesis
    proof (cases "py_ListFields pb")
      case (Inl e)
      then show ?thesis unfolding convert_message_def using Inr
        by (simp add: scan split: sum.split bool.split)
    next
      case fs: (Inr fs)
      have "fields_loop F fs [] = fields_loop G fs []"
      proof (rule fields_loop_cong)
        fix n x assume mem: "(n, x) \<in> set fs"
        from fs mem have 1: "size x < size pb" by (rule size_ListFields)
        from fs have "pb \<noteq> PyNone" by auto
        with msg Inr have "size pb < size v" by (rule size_pb)
        with 1 have "size x < size v" by simp
        then show "F x = G x" by (rule F)
      qed
      then show ?thesis unfolding convert_message_def using Inr fs
        by (simp add: scan split: sum.split bool.split)
    qed
  qed
qed

lemma try_body_cong [fundef_cong]:
  assumes "rt = rt'" and "v = v'" and F: "\<And>x. size x < size v' \<Longrightarrow> F x = G x"
  shows "try_body rt F v = try_body rt' G v'"
proof -
  have m: "convert_mapping rt' F v' = convert_mapping rt' G v'"
    using F by (rule convert_mapping_cong)
  have c: "is_repeated_container rt' v' = Inr True \<Longrightarrow>
      convert_container F v' = convert_container G v'"
    using F by (rule convert_container_cong)
  have g: "isinstance_Message v' \<Longrightarrow> convert_message rt' F v' = convert_message rt' G v'"
    using F by (rule convert_message_cong)
  show ?thesis
    unfolding try_body_def assms(1,2)
    by (simp add: m c g split: sum.split bool.split)
qed

text \<open>
  \<^verbatim>\<open>format_output_value\<close>: the \<^verbatim>\<open>try\<close> body, and the handler when the body
  raises.  The recursion is on the children of the value, which are smaller.
\<close>

function format_output_value :: "runtime \<Rightarrow> pyval \<Rightarrow> pyval res" where
  "format_output_value rt v =
     (case try_body rt (format_output_value rt) v of
        (Inr r, l) \<Rightarrow> (Inr r, l)
      | (Inl e, l) \<Rightarrow> except_handler rt v l)"
  by pat_completeness auto
termination
  by (relation "measure (\<lambda>(rt, v). size v)") auto


declare format_output_value.simps [simp del]

section \<open>Row formatter (lines 255-267)\<close>

text \<open>The two statements inside the \<^verbatim>\<open>try\<close> of the loop (lines 259-260).\<close>

definition extract_field :: "runtime \<Rightarrow> pyval \<Rightarrow> string \<Rightarrow> pyval res" where
  "extract_field rt row attr =
     (case get_nested_attr_safe rt row attr of
        Inl e \<Rightarrow> (Inl e, [])
      | Inr raw_val \<Rightarrow> format_output_value rt raw_val)"

text \<open>
  The loop over \<^verbatim>\<open>attributes\<close>: on success \<^verbatim>\<open>out[attr]\<close> is the normalised value;
  on any exception the failure is logged and \<^verbatim>\<open>out[attr] = None\<close>.
\<close>

fun row_loop ::
  "runtime \<Rightarrow> pyval \<Rightarrow> string list \<Rightarrow> (string \<times> pyval) list
     \<Rightarrow> (string \<times> pyval) list \<times> log_record list" where
  "row_loop rt row [] out = (out, [])"
| "row_loop rt row (attr # attrs) out =
     (case extract_field rt row attr of
        (Inr val, l) \<Rightarrow>
          (case row_loop rt row attrs (AList.update attr val out) of
             (r, l') \<Rightarrow> (r, l @ l'))
      | (Inl e, l) \<Rightarrow>
          (case row_loop rt row attrs (AList.update attr PyNone out) of
             (r, l') \<Rightarrow> (r, l @ try_log (FieldFailed attr) @ l')))"

definition format_output_row :: "runtime \<Rightarrow> pyval \<Rightarrow> string list \<Rightarrow> (string \<times> pyval) list res" where
  "format_output_row rt row attributes =
     (case row_loop rt row attributes [] of (out, l) \<Rightarrow> (Inr out, l))"

section \<open>Notions used in the statements\<close>

subsection \<open>The row formatter, per path\<close>

text \<open>What one pass of the loop assigns to \<^verbatim>\<open>out[attr]\<close>, and what it logs.\<close>

definition field_value :: "runtime \<Rightarrow> pyval \<Rightarrow> string \<Rightarrow> pyval" where
  "field_value rt row attr =
     (case fst (extract_field rt row attr) of Inr v \<Rightarrow> v | Inl _ \<Rightarrow> PyNone)"

definition field_log :: "runtime \<Rightarrow> pyval \<Rightarrow> string \<Rightarrow> log_record list" where
  "field_log rt row attr =
     (case extract_field rt row attr of
        (Inr v, l) \<Rightarrow> l
      | (Inl e, l) \<Rightarrow> l @ try_log (FieldFailed attr))"

text \<open>Appending a key to the key order of a dict unless it is present.\<close>

definition add_key :: "'a \<Rightarrow> 'a list \<Rightarrow> 'a list" where
  "add_key k ks = (if k \<in> set ks then ks else ks @ [k])"

subsection \<open>Repeated containers\<close>

text \<open>The type signature \<^verbatim>\<open>_is_repeated_container\<close> matches first (line 129).\<close>

definition upb_repeated_type :: "pyval \<Rightarrow> bool" where
  "upb_repeated_type v =
     (startswith (fst (py_type v)) ''google._upb._message''
      \<and> startswith (snd (py_type v)) ''Repeated'')"

subsection \<open>Normalized values\<close>

text \<open>
  Section 3 of the specification: a Normalized Value is built only from null,
  boolean/number/string primitives, ordered sequences of Normalized Values and mappings
  of string key to Normalized Value (a dict has each key once).
\<close>

fun is_str :: "pyval \<Rightarrow> bool" where
  "is_str (PyStr _) = True"
| "is_str _ = False"

fun is_normalized :: "pyval \<Rightarrow> bool" where
  "is_normalized PyNone = True"
| "is_normalized (PyBool _) = True"
| "is_normalized (PyInt _) = True"
| "is_normalized (PyFloat _) = True"
| "is_normalized (PyStr _) = True"
| "is_normalized (PyList xs) = list_all is_normalized xs"
| "is_normalized (PyDict kvs) =
     (list_all (\<lambda>kv. is_str (fst kv) \<and> is_normalized (snd kv)) kvs \<and> distinct (map fst kvs))"
| "is_normalized _ = False"

subsection \<open>Values the normaliser leaves unchanged\<close>

text \<open>
  A value that reaches the last statement of the \<^verbatim>\<open>try\<close> body,
  \<^verbatim>\<open>return value\<close> (line 245): every test before it answers no.
\<close>

definition passes_through :: "runtime \<Rightarrow> pyval \<Rightarrow> bool" where
  "passes_through rt v =
     (v \<noteq> PyNone \<and> \<not> isinstance_Enum v \<and> is_text_asset rt v = Inr False
      \<and> \<not> isinstance_Mapping v \<and> is_repeated_container rt v = Inr False
      \<and> \<not> isinstance_Message v \<and> \<not> (rt_protobuf rt \<and> isinstance_ProtobufMessage v))"

text \<open>
  Null, a value that passes through, a list of such values, or a dict with string keys
  (each once) of such values.  Every Normalized Value is of this form.
\<close>

fun settled :: "runtime \<Rightarrow> pyval \<Rightarrow> bool" where
  "settled rt PyNone = True"
| "settled rt (PyList xs) = list_all (settled rt) xs"
| "settled rt (PyDict kvs) =
     (list_all (\<lambda>kv. is_str (fst kv) \<and> settled rt (snd kv)) kvs \<and> distinct (map fst kvs))"
| "settled rt v = passes_through rt v"

text \<open>The string of a \<^verbatim>\<open>str\<close> value.\<close>

fun str_of :: "pyval \<Rightarrow> string" where
  "str_of (PyStr s) = s"
| "str_of _ = []"

text \<open>
  The two places where \<^verbatim>\<open>format_output_value\<close> returns a value it did not normalise
  are \<^verbatim>\<open>getattr(value, "text")\<close> of a text-asset shorthand (line 203) and
  \<^verbatim>\<open>MessageToDict(value)\<close> (line 242).  \<open>raw_ok\<close> holds of a value when, for every
  object inside it, these two are values the normaliser leaves unchanged.
\<close>

fun raw_ok :: "runtime \<Rightarrow> pyval \<Rightarrow> bool" where
  "raw_ok rt (PyList xs) = list_all (raw_ok rt) xs"
| "raw_ok rt (PyDict kvs) = list_all (\<lambda>kv. raw_ok rt (snd kv)) kvs"
| "raw_ok rt (PyObject ty attrs it items fs d s) =
     ((ty_name ty = ''AdTextAsset'' \<longrightarrow>
         (case map_of attrs ''text'' of Some (Inr t) \<Rightarrow> settled rt t | _ \<Rightarrow> True))
      \<and> (ty_protobuf_message ty \<longrightarrow> (case d of Inr w \<Rightarrow> settled rt w | Inl _ \<Rightarrow> True))
      \<and> list_all (\<lambda>a. case snd a of Inr x \<Rightarrow> raw_ok rt x | Inl _ \<Rightarrow> True) attrs
      \<and> list_all (raw_ok rt) (fst it)
      \<and> list_all (\<lambda>kv. raw_ok rt (snd kv)) (fst items)
      \<and> (case fs of Inr fl \<Rightarrow> list_all (\<lambda>f. raw_ok rt (snd f)) fl | Inl _ \<Rightarrow> True))"
| "raw_ok rt _ = True"

subsection \<open>The naming strategies, in the words of the specification\<close>

text \<open>
  Section 4.2 of the specification: the names tried for a segment, in order, and the
  first of them that resolves.
\<close>

definition candidates :: "string \<Rightarrow> string list" where
  "candidates name =
     [name, name @ ''_''] @ (if endswith name CHR ''_'' then [butlast name] else [])"

fun first_success :: "runtime \<Rightarrow> pyval \<Rightarrow> string list \<Rightarrow> pyval option" where
  "first_success rt obj [] = None"
| "first_success rt obj (c # cs) =
     (case py_getattr rt obj c of Inr v \<Rightarrow> Some v | Inl _ \<Rightarrow> first_success rt obj cs)"

text \<open>
  The first segment of a path that cannot be resolved: the current object is null, or none
  of the candidate names resolves against it.
\<close>

fun failing_segment :: "runtime \<Rightarrow> pyval \<Rightarrow> string list \<Rightarrow> string option" where
  "failing_segment rt cur [] = None"
| "failing_segment rt cur (s # ss) =
     (if cur = PyNone then Some s
      else case first_success rt cur (candidates s) of
        None \<Rightarrow> Some s
      | Some nxt \<Rightarrow> failing_segment rt nxt ss)"

section \<open>Values used in the examples\<close>

definition object_type :: "string \<Rightarrow> string \<Rightarrow> pytype" where
  "object_type m n =
     \<lparr>ty_module = m, ty_name = n, ty_mapping = False, ty_proto_message = False,
      ty_protobuf_message = False, ty_callable = False\<rparr>"

text \<open>
  An object with the given attributes and nothing else: not iterable, no \<^verbatim>\<open>items()\<close>,
  no \<^verbatim>\<open>ListFields()\<close>, printable.
\<close>

definition plain_object :: "pytype \<Rightarrow> (string \<times> (exn + pyval)) list \<Rightarrow> pyval" where
  "plain_object ty attrs =
     PyObject ty attrs ([], Some (TypeError ''object is not iterable''))
       ([], Some (AttributeError ''items'')) (Inl (AttributeError ''ListFields''))
       (Inl (AttributeError ''DESCRIPTOR'')) (Inr (''<'' @ ty_name ty @ '' object>''))"

text \<open>
  A runtime for the examples: every builtin value has \<^verbatim>\<open>__class__\<close> (as in CPython)
  and no further attribute; \<^verbatim>\<open>str(None)\<close> is \<^verbatim>\<open>'None'\<close>, a float prints as its
  \<^verbatim>\<open>repr\<close>, and the printable form of any other builtin value is abbreviated.
\<close>

definition example_runtime :: runtime where
  "example_runtime =
     \<lparr>rt_getattr = (\<lambda>v n.
        if n = ''__class__''
        then Inr (plain_object (object_type ''builtins'' ''type'')
                    [(''__name__'', Inr (PyStr (snd (py_type v))))])
        else Inl (AttributeError n)),
      rt_str = (\<lambda>v. case v of PyNone \<Rightarrow> Inr ''None'' | PyFloat r \<Rightarrow> Inr r | _ \<Rightarrow> Inr ''...''),
      rt_protobuf = True\<rparr>"

text \<open>
  A row whose \<^verbatim>\<open>ad_group_ad.ad\<close> has the attribute \<^verbatim>\<open>type_\<close> and no attribute
  \<^verbatim>\<open>type\<close>, and whose \<^verbatim>\<open>campaign\<close> is null.
\<close>

definition example_ad :: pyval where
  "example_ad = plain_object (object_type ''google.ads'' ''Ad'') [(''type_'', Inr (PyInt 3))]"

definition example_row :: pyval where
  "example_row =
     plain_object (object_type ''google.ads'' ''GoogleAdsRow'')
       [(''ad_group_ad'', Inr (plain_object (object_type ''google.ads'' ''AdGroupAd'')
           [(''ad'', Inr example_ad)])),
        (''campaign'', Inr PyNone)]"

text \<open>
  An object whose property \<^verbatim>\<open>status\<close> raises RuntimeError in its getter and that has
  the attribute \<^verbatim>\<open>status_\<close>; \<^verbatim>\<open>broken\<close> and \<^verbatim>\<open>broken_\<close> both raise.
\<close>

definition example_campaign :: pyval where
  "example_campaign =
     plain_object (object_type ''google.ads'' ''Campaign'')
       [(''status'', Inl (Raised ''RuntimeError'')), (''status_'', Inr (PyInt 2)),
        (''broken'', Inl (Raised ''ValueError'')), (''broken_'', Inl (TypeError ''getter''))]"

text \<open>
  The row of the end-to-end example of section 8 of the specification:
  \<^verbatim>\<open>campaign.id = 123\<close>, \<^verbatim>\<open>campaign.name = "Spring Sale"\<close>, \<^verbatim>\<open>campaign.status\<close>
  the enum member ENABLED, no \<^verbatim>\<open>campaign.missing\<close>; and \<^verbatim>\<open>customer\<close> null.
\<close>

definition spring_row :: pyval where
  "spring_row =
     plain_object (object_type ''google.ads'' ''GoogleAdsRow'')
       [(''campaign'', Inr (plain_object (object_type ''google.ads'' ''Campaign'')
           [(''id'', Inr (PyInt 123)), (''name'', Inr (PyStr ''Spring Sale'')),
            (''status'', Inr (PyEnum ''google.ads'' ''CampaignStatus'' ''ENABLED'' 2))])),
        (''customer'', Inr PyNone)]"

text \<open>
  An iterable object whose \<^verbatim>\<open>__iter__\<close> raises RuntimeError and whose \<^verbatim>\<open>__str__\<close>
  raises ValueError.
\<close>

definition broken_value :: pyval where
  "broken_value =
     PyObject (object_type ''app'' ''Broken'') [(''__iter__'', Inr method_wrapper)]
       ([], Some (Raised ''RuntimeError'')) ([], Some (AttributeError ''items''))
       (Inl (AttributeError ''ListFields'')) (Inl (AttributeError ''DESCRIPTOR''))
       (Inl (Raised ''ValueError''))"

text \<open>An iterable that yields 1 and then raises RuntimeError, with a working \<^verbatim>\<open>__str__\<close>.\<close>

definition failing_iterable :: pyval where
  "failing_iterable =
     PyObject (object_type ''app'' ''Failing'') [(''__iter__'', Inr method_wrapper)]
       ([PyInt 1], Some (Raised ''RuntimeError'')) ([], Some (AttributeError ''items''))
       (Inl (AttributeError ''ListFields'')) (Inl (AttributeError ''DESCRIPTOR''))
       (Inr ''<Failing>'')"

text \<open>
  A proto-plus message that also supports iteration; its \<^verbatim>\<open>_pb\<close> lists one populated
  field, \<^verbatim>\<open>id = 7\<close>.
\<close>

definition iterable_message :: pyval where
  "iterable_message =
     PyObject ((object_type ''google.ads'' ''Campaign'')\<lparr>ty_proto_message := True\<rparr>)
       [(''__iter__'', Inr method_wrapper),
        (''_pb'', Inr (PyObject ((object_type ''google.ads'' ''CampaignPb'')\<lparr>ty_protobuf_message := True\<rparr>)
            [(''ListFields'', Inr method_wrapper)]
            ([], Some (TypeError ''object is not iterable'')) ([], Some (AttributeError ''items''))
            (Inr [(''id'', PyInt 7)]) (Inr (PyDict [(PyStr ''id'', PyStr ''7'')]))
            (Inr ''id: 7'')))]
       ([PyStr ''id''], None) ([], Some (AttributeError ''items''))
       (Inl (AttributeError ''ListFields'')) (Inl (AttributeError ''DESCRIPTOR''))
       (Inr ''id: 7'')"

text \<open>A native upb repeated container holding 1, 2, 3, and a tuple holding the same.\<close>

definition upb_repeated :: pyval where
  "upb_repeated =
     PyObject (object_type ''google._upb._message'' ''RepeatedScalarContainer'') []
       ([PyInt 1, PyInt 2, PyInt 3], None) ([], Some (AttributeError ''items''))
       (Inl (AttributeError ''ListFields'')) (Inl (AttributeError ''DESCRIPTOR''))
       (Inr ''[1, 2, 3]'')"

definition example_tuple :: pyval where
  "example_tuple =
     PyObject (object_type ''builtins'' ''tuple'')
       [(''__iter__'', Inr method_wrapper), (''__len__'', Inr method_wrapper),
        (''__getitem__'', Inr method_wrapper)]
       ([PyInt 1, PyInt 2, PyInt 3], None) ([], Some (AttributeError ''items''))
       (Inl (AttributeError ''ListFields'')) (Inl (AttributeError ''DESCRIPTOR''))
       (Inr ''(1, 2, 3)'')"

text \<open>
  A proto-plus message with one populated \<^verbatim>\<open>bytes\<close> field, \<^verbatim>\<open>data = b"PNG"\<close>
  (as an image asset has).
\<close>

definition image_asset :: pyval where
  "image_asset =
     PyObject ((object_type ''google.ads'' ''ImageAsset'')\<lparr>ty_proto_message := True\<rparr>)
       [(''_pb'', Inr (PyObject ((object_type ''google.ads'' ''ImageAssetPb'')\<lparr>ty_protobuf_message := True\<rparr>)
            [(''ListFields'', Inr method_wrapper)]
            ([], Some (TypeError ''object is not iterable'')) ([], Some (AttributeError ''items''))
            (Inr [(''data'', PyBytes ''PNG'')]) (Inr (PyDict [(PyStr ''data'', PyStr ''UE5H'')]))
            (Inr ''data: PNG'')))]
       ([], Some (TypeError ''object is not iterable'')) ([], Some (AttributeError ''items''))
       (Inl (AttributeError ''ListFields'')) (Inl (AttributeError ''DESCRIPTOR''))
       (Inr ''data: PNG'')"

text \<open>
  An object of a class named \<^verbatim>\<open>AdTextAsset\<close> whose \<^verbatim>\<open>text\<close> attribute holds an
  enum member, and one whose \<^verbatim>\<open>text\<close> is the string "Buy Now".
\<close>

definition odd_text_asset :: pyval where
  "odd_text_asset =
     plain_object (object_type ''app'' ''AdTextAsset'')
       [(''text'', Inr (PyEnum ''google.ads'' ''ServedAssetFieldType'' ''HEADLINE_1'' 2))]"

definition text_asset :: pyval where
  "text_asset =
     plain_object (object_type ''google.ads'' ''AdTextAsset'') [(''text'', Inr (PyStr ''Buy Now''))]"

text \<open>A list holding a text asset, an enum member, the image asset, the tuple, null and a float.\<close>

definition mixed_values :: pyval where
  "mixed_values =
     PyList [text_asset, PyEnum ''google.ads'' ''CampaignStatus'' ''ENABLED'' 2, image_asset,
             example_tuple, PyNone, PyFloat ''0.5'']"

section \<open>Properties of the resolver\<close>

lemma py_split_append:
  "py_split sep (p @ sep # q) = py_split sep p @ py_split sep q"
proof (induction p)
  case Nil
  show ?case by simp
next
  case (Cons c p)
  obtain x xs where x: "py_split sep p = x # xs"
    using py_split_nonempty [of sep p] by (cases "py_split sep p") auto
  show ?case using Cons x by simp
qed

lemma py_split_no_sep: "sep \<notin> set s \<Longrightarrow> py_split sep s = [s]"
  by (induction s) auto

lemma walk_parts_append:
  "walk_parts rt cur (xs @ ys) =
     (case walk_parts rt cur xs of Inl e \<Rightarrow> Inl e | Inr c \<Rightarrow> walk_parts rt c ys)"
  by (induction xs arbitrary: cur) (simp_all split: sum.splits)

lemma get_nested_attr_safe_dot:
  "get_nested_attr_safe rt root (p @ ''.'' @ q) =
     (case get_nested_attr_safe rt root p of
        Inl e \<Rightarrow> Inl e
      | Inr cur \<Rightarrow> get_nested_attr_safe rt cur q)"
  unfolding get_nested_attr_safe_def by (simp add: py_split_append walk_parts_append)

lemma get_nested_attr_safe_segment:
  "CHR ''.'' \<notin> set s \<Longrightarrow>
     get_nested_attr_safe rt root s = get_attr_with_reserved_fallback rt root s"
  unfolding get_nested_attr_safe_def by (simp add: py_split_no_sep split: sum.splits)

lemma fallback_first_success:
  "obj \<noteq> PyNone \<Longrightarrow>
     get_attr_with_reserved_fallback rt obj name =
       (case first_success rt obj (candidates name) of
          Some v \<Rightarrow> Inr v
        | None \<Rightarrow> Inl (AttributeError name))"
  unfolding get_attr_with_reserved_fallback_def candidates_def
  by (simp split: sum.splits)

lemma fallback_error: "get_attr_with_reserved_fallback rt obj name = Inl e \<Longrightarrow> e = AttributeError name"
  unfolding get_attr_with_reserved_fallback_def
  by (simp split: sum.splits if_splits)

lemma walk_failing_segment:
  "(case failing_segment rt cur segs of
      Some s \<Rightarrow> walk_parts rt cur segs = Inl (AttributeError s)
    | None \<Rightarrow> (\<exists>v. walk_parts rt cur segs = Inr v))"
proof (induction segs arbitrary: cur)
  case Nil
  show ?case by simp
next
  case (Cons s segs)
  show ?case
  proof (cases "cur = PyNone")
    case True
    then show ?thesis by (simp add: get_attr_with_reserved_fallback_def)
  next
    case False
    show ?thesis
    proof (cases "first_success rt cur (candidates s)")
      case None
      then show ?thesis using False by (simp add: fallback_first_success)
    next
      case (Some nxt)
      have step: "walk_parts rt cur (s # segs) = walk_parts rt nxt segs"
        using False Some by (simp add: fallback_first_success)
      have "failing_segment rt cur (s # segs) = failing_segment rt nxt segs"
        using False Some by simp
      then show ?thesis using Cons [of nxt] unfolding step by simp
    qed
  qed
qed

text \<open>
  C5.  At each segment the resolver tries the name, then the name with a trailing
  underscore, then (only for a name that ends with an underscore) the name without it,
  and returns the first that resolves.  A path is walked segment by segment: resolving
  \<open>p.q\<close> is resolving \<open>p\<close> and then \<open>q\<close> from the result, and a path without a dot is
  one segment.  Consequently \<^verbatim>\<open>ad_group_ad.ad.type\<close> resolves to the attribute
  \<^verbatim>\<open>type_\<close> of the nested \<^verbatim>\<open>ad\<close> object when \<^verbatim>\<open>type\<close> itself does not resolve.
\<close>

theorem resolver_tries_names_in_order:
  "(obj \<noteq> PyNone \<longrightarrow>
      get_attr_with_reserved_fallback rt obj name =
        (case first_success rt obj (candidates name) of
           Some v \<Rightarrow> Inr v
         | None \<Rightarrow> Inl (AttributeError name)))
   \<and> get_nested_attr_safe rt root (p @ ''.'' @ q) =
        (case get_nested_attr_safe rt root p of
           Inl e \<Rightarrow> Inl e
         | Inr cur \<Rightarrow> get_nested_attr_safe rt cur q)
   \<and> (CHR ''.'' \<notin> set s \<longrightarrow>
        get_nested_attr_safe rt root s = get_attr_with_reserved_fallback rt root s)
   \<and> (get_nested_attr_safe rt root ''ad_group_ad.ad'' = Inr ad \<and> ad \<noteq> PyNone
        \<and> py_getattr rt ad ''type'' = Inl e \<and> py_getattr rt ad ''type_'' = Inr v \<longrightarrow>
        get_nested_attr_safe rt root ''ad_group_ad.ad.type'' = py_getattr rt ad ''type_'')"
proof (intro conjI impI)
  assume "obj \<noteq> PyNone"
  then show "get_attr_with_reserved_fallback rt obj name =
      (case first_success rt obj (candidates name) of
         Some v \<Rightarrow> Inr v
       | None \<Rightarrow> Inl (AttributeError name))"
    by (rule fallback_first_success)
next
  show "get_nested_attr_safe rt root (p @ ''.'' @ q) =
      (case get_nested_attr_safe rt root p of
         Inl e \<Rightarrow> Inl e
       | Inr cur \<Rightarrow> get_nested_attr_safe rt cur q)"
    by (rule get_nested_attr_safe_dot)
next
  assume "CHR ''.'' \<notin> set s"
  then show "get_nested_attr_safe rt root s = get_attr_with_reserved_fallback rt root s"
    by (rule get_nested_attr_safe_segment)
next
  assume a: "get_nested_attr_safe rt root ''ad_group_ad.ad'' = Inr ad \<and> ad \<noteq> PyNone
    \<and> py_getattr rt ad ''type'' = Inl e \<and> py_getattr rt ad ''type_'' = Inr v"
  have "get_nested_attr_safe rt root (''ad_group_ad.ad'' @ ''.'' @ ''type'')
      = get_nested_attr_safe rt ad ''type''"
    using a by (simp only: get_nested_attr_safe_dot sum.case)
  also have "\<dots> = get_attr_with_reserved_fallback rt ad ''type''"
    by (rule get_nested_attr_safe_segment) simp
  also have "\<dots> = Inr v"
    using a by (simp add: get_attr_with_reserved_fallback_def)
  finally show "get_nested_attr_safe rt root ''ad_group_ad.ad.type'' = py_getattr rt ad ''type_''"
    using a by simp
qed

lemma example_row_ad:
  "get_nested_attr_safe example_runtime example_row ''ad_group_ad.ad'' = Inr example_ad"
  by (simp add: get_nested_attr_safe_def get_attr_with_reserved_fallback_def example_row_def
      plain_object_def example_ad_def)

theorem resolver_tries_names_in_order_witness:
  "get_nested_attr_safe example_runtime example_row ''ad_group_ad.ad.type'' = Inr (PyInt 3)
   \<and> py_getattr example_runtime example_ad ''type'' = Inl (AttributeError ''type'')
   \<and> get_attr_with_reserved_fallback example_runtime example_ad ''type'' = Inr (PyInt 3)
   \<and> first_success example_runtime example_ad (candidates ''type'') = Some (PyInt 3)"
proof -
  have ad: "example_ad \<noteq> PyNone"
    by (simp add: example_ad_def plain_object_def)
  have t: "py_getattr example_runtime example_ad ''type'' = Inl (AttributeError ''type'')"
    by (simp add: example_ad_def plain_object_def)
  have t': "py_getattr example_runtime example_ad ''type_'' = Inr (PyInt 3)"
    by (simp add: example_ad_def plain_object_def)
  have fs: "first_success example_runtime example_ad (candidates ''type'') = Some (PyInt 3)"
    by (simp add: candidates_def endswith_def t t')
  from resolver_tries_names_in_order
    [of example_ad example_runtime "''type''" example_row "''x''" "''y''" "''type''" example_ad
      "AttributeError ''type''" "PyInt 3"]
  show ?thesis using ad t t' fs example_row_ad by simp
qed

text \<open>
  C10.  Whatever exception an attribute access raises (not only AttributeError), the next
  name is tried: when the direct access raises \<open>e\<close> and the underscore-suffixed name
  resolves, that value is returned.  No exception of a lookup attempt propagates: the only
  exception the function raises is \<^verbatim>\<open>AttributeError(name)\<close> for the segment.
\<close>

theorem fallback_on_any_exception:
  "(get_attr_with_reserved_fallback rt obj name = Inl err \<longrightarrow> err = AttributeError name)
   \<and> (obj \<noteq> PyNone \<and> py_getattr rt obj name = Inl e
        \<and> py_getattr rt obj (name @ ''_'') = Inr v \<longrightarrow>
        get_attr_with_reserved_fallback rt obj name = Inr v)
   \<and> (obj \<noteq> PyNone \<and> py_getattr rt obj name = Inl e
        \<and> py_getattr rt obj (name @ ''_'') = Inl e' \<and> \<not> endswith name CHR ''_'' \<longrightarrow>
        get_attr_with_reserved_fallback rt obj name = Inl (AttributeError name))"
proof (intro conjI impI)
  assume "get_attr_with_reserved_fallback rt obj name = Inl err"
  then show "err = AttributeError name" by (rule fallback_error)
next
  assume "obj \<noteq> PyNone \<and> py_getattr rt obj name = Inl e
    \<and> py_getattr rt obj (name @ ''_'') = Inr v"
  then show "get_attr_with_reserved_fallback rt obj name = Inr v"
    by (simp add: get_attr_with_reserved_fallback_def)
next
  assume "obj \<noteq> PyNone \<and> py_getattr rt obj name = Inl e
    \<and> py_getattr rt obj (name @ ''_'') = Inl e' \<and> \<not> endswith name CHR ''_''"
  then show "get_attr_with_reserved_fallback rt obj name = Inl (AttributeError name)"
    by (simp add: get_attr_with_reserved_fallback_def)
qed

theorem fallback_on_any_exception_witness:
  "py_getattr example_runtime example_campaign ''status'' = Inl (Raised ''RuntimeError'')
   \<and> get_attr_with_reserved_fallback example_runtime example_campaign ''status'' = Inr (PyInt 2)
   \<and> py_getattr example_runtime example_campaign ''broken'' = Inl (Raised ''ValueError'')
   \<and> py_getattr example_runtime example_campaign ''broken_'' = Inl (TypeError ''getter'')
   \<and> get_attr_with_reserved_fallback example_runtime example_campaign ''broken''
        = Inl (AttributeError ''broken'')"
proof -
  have n: "example_campaign \<noteq> PyNone"
    by (simp add: example_campaign_def plain_object_def)
  have s: "py_getattr example_runtime example_campaign ''status'' = Inl (Raised ''RuntimeError'')"
    and s': "py_getattr example_runtime example_campaign (''status'' @ ''_'') = Inr (PyInt 2)"
    and b: "py_getattr example_runtime example_campaign ''broken'' = Inl (Raised ''ValueError'')"
    and b': "py_getattr example_runtime example_campaign (''broken'' @ ''_'') = Inl (TypeError ''getter'')"
    by (simp_all add: example_campaign_def plain_object_def)
  have e: "\<not> endswith ''broken'' CHR ''_''" by (simp add: endswith_def)
  from fallback_on_any_exception
    [of example_runtime example_campaign "''status''" "AttributeError ''status''"
      "Raised ''RuntimeError''" "PyInt 2" "TypeError ''getter''"]
    fallback_on_any_exception
    [of example_runtime example_campaign "''broken''" "AttributeError ''broken''"
      "Raised ''ValueError''" "PyInt 2" "TypeError ''getter''"]
  show ?thesis using n s s' b b' e by simp
qed

text \<open>
  C6 (as stated) fails.  The resolver also fails when the current object is null, even if
  one of the three names would resolve against it: with \<^verbatim>\<open>row.campaign\<close> null, the path
  \<^verbatim>\<open>campaign.__class__\<close> raises \<^verbatim>\<open>AttributeError('__class__')\<close>, although both
  segments resolve by the naming strategies against their current objects.
\<close>

theorem resolve_fails_on_null_counterexample:
  "get_nested_attr_safe example_runtime example_row ''campaign.__class__''
     = Inl (AttributeError ''__class__'')
   \<and> first_success example_runtime example_row (candidates ''campaign'') = Some PyNone
   \<and> first_success example_runtime PyNone (candidates ''__class__'')
     = Some (plain_object (object_type ''builtins'' ''type'') [(''__name__'', Inr (PyStr ''NoneType''))])"
  by (simp add: get_nested_attr_safe_def get_attr_with_reserved_fallback_def example_row_def
      plain_object_def candidates_def endswith_def example_runtime_def sequence_dunders_def)

text \<open>
  C6 (amended).  \<^verbatim>\<open>get_nested_attr_safe\<close> raises exactly when the walk reaches a segment
  whose current object is null or against which none of the three names resolves; the
  exception is \<^verbatim>\<open>AttributeError\<close> carrying that segment as written in the path; otherwise
  a value is returned.  In particular \<^verbatim>\<open>missing.field\<close> raises
  \<^verbatim>\<open>AttributeError('missing')\<close> when no name for \<^verbatim>\<open>missing\<close> resolves.
\<close>

theorem resolve_fails_exactly_at_failing_segment:
  "(case failing_segment rt root (py_split CHR ''.'' path) of
      Some s \<Rightarrow> get_nested_attr_safe rt root path = Inl (AttributeError s)
    | None \<Rightarrow> (\<exists>v. get_nested_attr_safe rt root path = Inr v))
   \<and> (root \<noteq> PyNone \<and> first_success rt root (candidates ''missing'') = None \<longrightarrow>
        get_nested_attr_safe rt root ''missing.field'' = Inl (AttributeError ''missing''))"
proof (intro conjI impI)
  show "case failing_segment rt root (py_split CHR ''.'' path) of
      Some s \<Rightarrow> get_nested_attr_safe rt root path = Inl (AttributeError s)
    | None \<Rightarrow> (\<exists>v. get_nested_attr_safe rt root path = Inr v)"
    unfolding get_nested_attr_safe_def by (rule walk_failing_segment)
next
  assume "root \<noteq> PyNone \<and> first_success rt root (candidates ''missing'') = None"
  then show "get_nested_attr_safe rt root ''missing.field'' = Inl (AttributeError ''missing'')"
    by (simp add: get_nested_attr_safe_def fallback_first_success)
qed

theorem resolve_fails_exactly_at_failing_segment_witness:
  "example_row \<noteq> PyNone
   \<and> first_success example_runtime example_row (candidates ''missing'') = None
   \<and> get_nested_attr_safe example_runtime example_row ''missing.field''
        = Inl (AttributeError ''missing'')
   \<and> failing_segment example_runtime example_row (py_split CHR ''.'' ''ad_group_ad.ad.type'') = None
   \<and> (\<exists>v. get_nested_attr_safe example_runtime example_row ''ad_group_ad.ad.type'' = Inr v)"
proof -
  have n: "example_row \<noteq> PyNone"
    by (simp add: example_row_def plain_object_def)
  have m: "first_success example_runtime example_row (candidates ''missing'') = None"
    by (simp add: example_row_def plain_object_def candidates_def endswith_def)
  have f: "failing_segment example_runtime example_row (py_split CHR ''.'' ''ad_group_ad.ad.type'') = None"
    by (simp add: example_row_def example_ad_def plain_object_def candidates_def endswith_def)
  from resolve_fails_exactly_at_failing_segment [of example_runtime example_row "''missing.field''"]
    resolve_fails_exactly_at_failing_segment [of example_runtime example_row "''ad_group_ad.ad.type''"]
  show ?thesis using n m f by simp
qed

section \<open>Properties of the row formatter\<close>

lemma row_loop_step:
  "row_loop rt row (attr # attrs) out =
     (case row_loop rt row attrs (AList.update attr (field_value rt row attr) out) of
        (r, l') \<Rightarrow> (r, field_log rt row attr @ l'))"
  by (cases "extract_field rt row attr")
     (auto simp: field_value_def field_log_def split: sum.splits prod.splits)

lemma row_loop_dict:
  "fst (row_loop rt row attrs out) =
     fold (\<lambda>attr. AList.update attr (field_value rt row attr)) attrs out"
proof (induction attrs arbitrary: out)
  case Nil
  show ?case by simp
next
  case (Cons attr attrs)
  show ?case
    unfolding row_loop_step using Cons [of "AList.update attr (field_value rt row attr) out"]
    by (simp add: case_prod_beta)
qed

lemma row_loop_log:
  "snd (row_loop rt row attrs out) = concat (map (field_log rt row) attrs)"
proof (induction attrs arbitrary: out)
  case Nil
  show ?case by simp
next
  case (Cons attr attrs)
  show ?case
    unfolding row_loop_step using Cons [of "AList.update attr (field_value rt row attr) out"]
    by (simp add: case_prod_beta)
qed

lemma map_of_fold_update:
  "map_of (fold (\<lambda>k. AList.update k (g k)) ks al) k =
     (if k \<in> set ks then Some (g k) else map_of al k)"
  by (induction ks arbitrary: al) (simp_all add: update_conv')

lemma keys_fold_update:
  "map fst (fold (\<lambda>k. AList.update k (g k)) ks al) = fold add_key ks (map fst al)"
  by (induction ks arbitrary: al) (simp_all add: update_keys add_key_def)

lemma fold_add_key: "fold add_key ks [] = rev (remdups (rev ks))"
proof (induction ks rule: rev_induct)
  case Nil
  show ?case by simp
next
  case (snoc k ks)
  have "set (rev (remdups (rev ks))) = set ks" by simp
  then show ?case using snoc by (simp add: add_key_def)
qed

lemma format_output_row_eq:
  "format_output_row rt row attributes =
     (Inr (fold (\<lambda>attr. AList.update attr (field_value rt row attr)) attributes []),
      concat (map (field_log rt row) attributes))"
  unfolding format_output_row_def
  using row_loop_dict [of rt row attributes "[]"] row_loop_log [of rt row attributes "[]"]
  by (simp add: case_prod_beta)

lemma format_output_row_lookup:
  "attr \<in> set attributes \<Longrightarrow> format_output_row rt row attributes = (Inr out, l) \<Longrightarrow>
     map_of out attr = Some (field_value rt row attr)"
  unfolding format_output_row_eq by (auto simp: map_of_fold_update)

lemma format_output_row_keys:
  "format_output_row rt row attributes = (Inr out, l) \<Longrightarrow>
     map fst out = rev (remdups (rev attributes))"
  unfolding format_output_row_eq by (auto simp: keys_fold_update fold_add_key)

text \<open>
  C1.  \<^verbatim>\<open>format_output_row\<close> always returns a dict (it never raises).  Its keys are
  exactly the requested paths, each path string unmodified, every key once, in the order
  in which the paths first occur in the input; the value under a path is what the loop
  assigns for that path (the normalised value, or null on failure).  A path that occurs
  again is processed again and its assignment overwrites the entry in place
  (last write wins): formatting \<open>attributes @ [attr]\<close> is formatting \<open>attributes\<close> and then
  \<^verbatim>\<open>out[attr] = ...\<close>.
\<close>

theorem format_output_row_key_set:
  "\<exists>out l. format_output_row rt row attributes = (Inr out, l)
     \<and> set (map fst out) = set attributes
     \<and> distinct (map fst out)
     \<and> map fst out = rev (remdups (rev attributes))
     \<and> (\<forall>attr \<in> set attributes. map_of out attr = Some (field_value rt row attr))
     \<and> (\<exists>l'. format_output_row rt row (attributes @ [attr]) =
           (Inr (AList.update attr (field_value rt row attr) out), l'))"
proof -
  obtain out l where eq: "format_output_row rt row attributes = (Inr out, l)"
    by (simp add: format_output_row_eq)
  have keys: "map fst out = rev (remdups (rev attributes))"
    using eq by (rule format_output_row_keys)
  have "set (map fst out) = set attributes" "distinct (map fst out)"
    unfolding keys by simp_all
  moreover have "\<forall>attr \<in> set attributes. map_of out attr = Some (field_value rt row attr)"
    using eq by (auto intro: format_output_row_lookup)
  moreover have "\<exists>l'. format_output_row rt row (attributes @ [attr]) =
      (Inr (AList.update attr (field_value rt row attr) out), l')"
    using eq by (simp add: format_output_row_eq)
  ultimately show ?thesis using eq keys by blast
qed

theorem format_output_row_key_set_witness:
  "format_output_row example_runtime spring_row
      [''campaign.id'', ''campaign.name'', ''campaign.status'', ''campaign.missing'',
       ''campaign.id'']
    = (Inr [(''campaign.id'', PyInt 123), (''campaign.name'', PyStr ''Spring Sale''),
            (''campaign.status'', PyStr ''ENABLED''), (''campaign.missing'', PyNone)],
       [FieldFailed ''campaign.missing''])
   \<and> field_value example_runtime spring_row ''campaign.id'' = PyInt 123
   \<and> field_value example_runtime spring_row ''campaign.missing'' = PyNone"
proof -
  have r: "format_output_row example_runtime spring_row
      [''campaign.id'', ''campaign.name'', ''campaign.status'', ''campaign.missing'',
       ''campaign.id'']
    = (Inr [(''campaign.id'', PyInt 123), (''campaign.name'', PyStr ''Spring Sale''),
            (''campaign.status'', PyStr ''ENABLED''), (''campaign.missing'', PyNone)],
       [FieldFailed ''campaign.missing''])"
    by code_simp
  from format_output_row_key_set [of example_runtime spring_row
      "[''campaign.id'', ''campaign.name'', ''campaign.status'', ''campaign.missing'',
        ''campaign.id'']" "''campaign.id''"]
  have "map_of [(''campaign.id'', PyInt 123), (''campaign.name'', PyStr ''Spring Sale''),
            (''campaign.status'', PyStr ''ENABLED''), (''campaign.missing'', PyNone)] ''campaign.id''
      = Some (field_value example_runtime spring_row ''campaign.id'')"
    and "map_of [(''campaign.id'', PyInt 123), (''campaign.name'', PyStr ''Spring Sale''),
            (''campaign.status'', PyStr ''ENABLED''), (''campaign.missing'', PyNone)] ''campaign.missing''
      = Some (field_value example_runtime spring_row ''campaign.missing'')"
    unfolding r by auto
  then show ?thesis using r by simp
qed

text \<open>
  C4.  For every requested path: if resolving it raises, or normalising the resolved value
  raises, the path is bound to null and the failure is logged with the path; if neither
  raises, the path is bound to the normalised value.  No path affects another: the binding
  of a path in the row is the binding it gets when formatted alone, and the log of the row
  is the concatenation, in path order, of what each path logs alone.
\<close>

theorem row_failures_are_local:
  "\<exists>out l. format_output_row rt row attributes = (Inr out, l)
     \<and> (\<forall>attr \<in> set attributes.
          ((\<exists>e. get_nested_attr_safe rt row attr = Inl e) \<longrightarrow>
             map_of out attr = Some PyNone \<and> FieldFailed attr \<in> set l)
        \<and> ((\<exists>e. fst (extract_field rt row attr) = Inl e) \<longrightarrow>
             map_of out attr = Some PyNone \<and> FieldFailed attr \<in> set l)
        \<and> (\<forall>v. fst (extract_field rt row attr) = Inr v \<longrightarrow> map_of out attr = Some v)
        \<and> (\<exists>x la. format_output_row rt row [attr] = (Inr [(attr, x)], la)
             \<and> map_of out attr = Some x))
     \<and> l = concat (map (\<lambda>attr. snd (format_output_row rt row [attr])) attributes)"
proof -
  obtain out l where eq: "format_output_row rt row attributes = (Inr out, l)"
    by (simp add: format_output_row_eq)
  have l: "l = concat (map (field_log rt row) attributes)"
    using eq by (simp add: format_output_row_eq)
  have lookup: "map_of out attr = Some (field_value rt row attr)" if "attr \<in> set attributes" for attr
    using that eq by (rule format_output_row_lookup)
  have failed: "map_of out attr = Some PyNone \<and> FieldFailed attr \<in> set l"
    if "attr \<in> set attributes" "fst (extract_field rt row attr) = Inl e" for attr e
  proof
    show "map_of out attr = Some PyNone"
      using lookup [OF that(1)] that(2) by (simp add: field_value_def)
    have "FieldFailed attr \<in> set (field_log rt row attr)"
      using that(2) by (cases "extract_field rt row attr")
        (simp add: field_log_def try_log_def logger_exception_def)
    then show "FieldFailed attr \<in> set l" unfolding l using that(1) by auto
  qed
  have "\<forall>attr \<in> set attributes.
          ((\<exists>e. get_nested_attr_safe rt row attr = Inl e) \<longrightarrow>
             map_of out attr = Some PyNone \<and> FieldFailed attr \<in> set l)
        \<and> ((\<exists>e. fst (extract_field rt row attr) = Inl e) \<longrightarrow>
             map_of out attr = Some PyNone \<and> FieldFailed attr \<in> set l)
        \<and> (\<forall>v. fst (extract_field rt row attr) = Inr v \<longrightarrow> map_of out attr = Some v)
        \<and> (\<exists>x la. format_output_row rt row [attr] = (Inr [(attr, x)], la)
             \<and> map_of out attr = Some x)"
  proof (intro ballI conjI impI allI)
    fix attr assume mem: "attr \<in> set attributes"
    {
      assume "\<exists>e. get_nested_attr_safe rt row attr = Inl e"
      then obtain e where "fst (extract_field rt row attr) = Inl e"
        by (auto simp: extract_field_def)
      with mem have "map_of out attr = Some PyNone \<and> FieldFailed attr \<in> set l" by (rule failed)
      then show "map_of out attr = Some PyNone" and "FieldFailed attr \<in> set l" by simp_all
    next
      assume "\<exists>e. fst (extract_field rt row attr) = Inl e"
      then obtain e where "fst (extract_field rt row attr) = Inl e" ..
      with mem have "map_of out attr = Some PyNone \<and> FieldFailed attr \<in> set l" by (rule failed)
      then show "map_of out attr = Some PyNone" and "FieldFailed attr \<in> set l" by simp_all
    next
      fix v assume "fst (extract_field rt row attr) = Inr v"
      then show "map_of out attr = Some v" using lookup [OF mem] by (simp add: field_value_def)
    next
      show "\<exists>x la. format_output_row rt row [attr] = (Inr [(attr, x)], la) \<and> map_of out attr = Some x"
        using lookup [OF mem] by (simp add: format_output_row_eq)
    }
  qed
  moreover have "l = concat (map (\<lambda>attr. snd (format_output_row rt row [attr])) attributes)"
    unfolding l by (simp add: format_output_row_eq)
  ultimately show ?thesis using eq by blast
qed

theorem row_failures_are_local_witness:
  "format_output_row example_runtime spring_row
      [''campaign.missing'', ''campaign.id'', ''customer.id'', ''campaign.status'']
    = (Inr [(''campaign.missing'', PyNone), (''campaign.id'', PyInt 123),
            (''customer.id'', PyNone), (''campaign.status'', PyStr ''ENABLED'')],
       [FieldFailed ''campaign.missing'', FieldFailed ''customer.id''])
   \<and> get_nested_attr_safe example_runtime spring_row ''campaign.missing''
        = Inl (AttributeError ''missing'')
   \<and> format_output_row example_runtime spring_row [''campaign.id'']
        = (Inr [(''campaign.id'', PyInt 123)], [])"
proof -
  have r: "format_output_row example_runtime spring_row
      [''campaign.missing'', ''campaign.id'', ''customer.id'', ''campaign.status'']
    = (Inr [(''campaign.missing'', PyNone), (''campaign.id'', PyInt 123),
            (''customer.id'', PyNone), (''campaign.status'', PyStr ''ENABLED'')],
       [FieldFailed ''campaign.missing'', FieldFailed ''customer.id''])"
    by code_simp
  have g: "get_nested_attr_safe example_runtime spring_row ''campaign.missing''
        = Inl (AttributeError ''missing'')"
    by code_simp
  have s: "format_output_row example_runtime spring_row [''campaign.id'']
        = (Inr [(''campaign.id'', PyInt 123)], [])"
    by code_simp
  from row_failures_are_local [of example_runtime spring_row
      "[''campaign.missing'', ''campaign.id'', ''customer.id'', ''campaign.status'']"]
  have "FieldFailed ''campaign.missing''
      \<in> set [FieldFailed ''campaign.missing'', FieldFailed ''customer.id'']"
    unfolding r
    apply (elim exE conjE)
    apply (drule bspec [where x = "''campaign.missing''"])
     apply simp
    apply (simp add: g)
    done
  then show ?thesis using r g s by simp
qed

text \<open>
  C9.  Against a null current object every segment fails at once with
  \<^verbatim>\<open>AttributeError(name)\<close>, whatever attributes the runtime gives the null object.  So a
  path whose prefix resolves to null fails at the next segment, and the row formatter binds
  such a path to null.
\<close>

theorem null_object_fails_every_segment:
  "get_attr_with_reserved_fallback rt PyNone name = Inl (AttributeError name)
   \<and> (get_nested_attr_safe rt root p = Inr PyNone \<longrightarrow>
        get_nested_attr_safe rt root (p @ ''.'' @ q)
          = Inl (AttributeError (hd (py_split CHR ''.'' q))))
   \<and> (get_nested_attr_safe rt root p = Inr PyNone \<and> p @ ''.'' @ q \<in> set attributes \<longrightarrow>
        (\<exists>out l. format_output_row rt root attributes = (Inr out, l)
           \<and> map_of out (p @ ''.'' @ q) = Some PyNone))"
proof (intro conjI impI)
  show n: "get_attr_with_reserved_fallback rt PyNone name = Inl (AttributeError name)" for name
    by (simp add: get_attr_with_reserved_fallback_def)
  have walk: "walk_parts rt PyNone segs = Inl (AttributeError (hd segs))" if "segs \<noteq> []" for segs
    using that by (cases segs) (simp_all add: n)
  have fail: "get_nested_attr_safe rt root (p @ ''.'' @ q)
      = Inl (AttributeError (hd (py_split CHR ''.'' q)))"
    if "get_nested_attr_safe rt root p = Inr PyNone"
  proof -
    have "get_nested_attr_safe rt root (p @ ''.'' @ q) = get_nested_attr_safe rt PyNone q"
      using that by (simp only: get_nested_attr_safe_dot sum.case)
    also have "\<dots> = Inl (AttributeError (hd (py_split CHR ''.'' q)))"
      unfolding get_nested_attr_safe_def by (rule walk) (rule py_split_nonempty)
    finally show ?thesis .
  qed
  {
    assume "get_nested_attr_safe rt root p = Inr PyNone"
    then show "get_nested_attr_safe rt root (p @ ''.'' @ q)
        = Inl (AttributeError (hd (py_split CHR ''.'' q)))" by (rule fail)
  next
    assume a: "get_nested_attr_safe rt root p = Inr PyNone \<and> p @ ''.'' @ q \<in> set attributes"
    obtain out l where eq: "format_output_row rt root attributes = (Inr out, l)"
      by (simp add: format_output_row_eq)
    from a have "field_value rt root (p @ ''.'' @ q) = PyNone"
      using fail by (simp add: field_value_def extract_field_def)
    with a eq have "map_of out (p @ ''.'' @ q) = Some PyNone"
      using format_output_row_lookup [of "p @ ''.'' @ q" attributes rt root out l] by simp
    with eq show "\<exists>out l. format_output_row rt root attributes = (Inr out, l)
        \<and> map_of out (p @ ''.'' @ q) = Some PyNone" by blast
  }
qed

theorem null_object_fails_every_segment_witness:
  "py_getattr example_runtime PyNone ''__class__''
     = Inr (plain_object (object_type ''builtins'' ''type'') [(''__name__'', Inr (PyStr ''NoneType''))])
   \<and> get_attr_with_reserved_fallback example_runtime PyNone ''__class__''
     = Inl (AttributeError ''__class__'')
   \<and> get_nested_attr_safe example_runtime spring_row ''customer'' = Inr PyNone
   \<and> get_nested_attr_safe example_runtime spring_row ''customer.id''
     = Inl (AttributeError ''id'')
   \<and> (\<exists>out l. format_output_row example_runtime spring_row [''campaign.id'', ''customer.id'']
         = (Inr out, l) \<and> map_of out ''customer.id'' = Some PyNone)"
proof -
  have c: "py_getattr example_runtime PyNone ''__class__''
     = Inr (plain_object (object_type ''builtins'' ''type'') [(''__name__'', Inr (PyStr ''NoneType''))])"
    by (simp add: example_runtime_def sequence_dunders_def)
  have p: "get_nested_attr_safe example_runtime spring_row ''customer'' = Inr PyNone"
    by code_simp
  from null_object_fails_every_segment
    [of example_runtime "''__class__''" spring_row "''customer''" "''id''"
      "[''campaign.id'', ''customer.id'']"]
  show ?thesis using c p by simp
qed

section \<open>Properties of the value normaliser\<close>

lemma format_output_value_body_ok:
  "try_body rt (format_output_value rt) v = (Inr r, l) \<Longrightarrow> format_output_value rt v = (Inr r, l)"
  by (subst format_output_value.simps) simp

lemma format_output_value_body_raises:
  "try_body rt (format_output_value rt) v = (Inl e, l) \<Longrightarrow>
     format_output_value rt v =
       (case py_str rt v of Inr s \<Rightarrow> Inr (PyStr s) | Inl e' \<Rightarrow> Inl e',
        l @ [ValueFailed (py_type v)])"
  by (subst format_output_value.simps)
     (simp add: except_handler_def try_log_def logger_exception_def split: sum.splits)

text \<open>
  C3 (as stated) fails: the handler's \<^verbatim>\<open>return str(value)\<close> is outside any
  \<^verbatim>\<open>try\<close>.  For an iterable whose iteration raises and whose \<^verbatim>\<open>__str__\<close> raises
  ValueError, the failure is logged and the ValueError reaches the caller.
\<close>

theorem format_output_value_raises_counterexample:
  "format_output_value example_runtime broken_value
     = (Inl (Raised ''ValueError''), [ValueFailed (''app'', ''Broken'')])"
  by code_simp

text \<open>
  C3 (amended).  When the body of the \<^verbatim>\<open>try\<close> returns, that is the result.  When any
  step of it raises, the failure is logged with the type of the value and the result is
  \<^verbatim>\<open>str(value)\<close>: that string if \<^verbatim>\<open>str\<close> returns, and the exception of \<^verbatim>\<open>str\<close>
  if it raises.  So \<^verbatim>\<open>format_output_value\<close> raises only an exception that
  \<^verbatim>\<open>str(value)\<close> raises, and never raises for a value whose \<^verbatim>\<open>str\<close> returns.
\<close>

theorem format_output_value_raises_only_from_str:
  "(\<forall>e l. try_body rt (format_output_value rt) v = (Inl e, l) \<longrightarrow>
       format_output_value rt v =
         (case py_str rt v of Inr s \<Rightarrow> Inr (PyStr s) | Inl e' \<Rightarrow> Inl e',
          l @ [ValueFailed (py_type v)]))
   \<and> (\<forall>r l. try_body rt (format_output_value rt) v = (Inr r, l) \<longrightarrow>
       format_output_value rt v = (Inr r, l))
   \<and> (\<forall>e. fst (format_output_value rt v) = Inl e \<longrightarrow> py_str rt v = Inl e)
   \<and> ((\<exists>s. py_str rt v = Inr s) \<longrightarrow> (\<exists>r. fst (format_output_value rt v) = Inr r))"
proof -
  have raises: "py_str rt v = Inl e" if "fst (format_output_value rt v) = Inl e" for e
  proof (cases "try_body rt (format_output_value rt) v")
    case (Pair r l)
    show ?thesis
    proof (cases r)
      case (Inl e0)
      with Pair that show ?thesis
        by (simp add: format_output_value_body_raises split: sum.splits)
    next
      case (Inr x)
      with Pair that show ?thesis by (simp add: format_output_value_body_ok)
    qed
  qed
  have returns: "\<exists>r. fst (format_output_value rt v) = Inr r" if "py_str rt v = Inr s" for s
  proof (cases "fst (format_output_value rt v)")
    case (Inl e)
    then have "py_str rt v = Inl e" by (rule raises)
    with that show ?thesis by simp
  next
    case (Inr r)
    then show ?thesis by blast
  qed
  show ?thesis
    using raises returns
    by (auto simp: format_output_value_body_ok format_output_value_body_raises)
qed

theorem format_output_value_raises_only_from_str_witness:
  "py_str example_runtime failing_iterable = Inr ''<Failing>''
   \<and> try_body example_runtime (format_output_value example_runtime) failing_iterable
       = (Inl (Raised ''RuntimeError''), [])
   \<and> format_output_value example_runtime failing_iterable
       = (Inr (PyStr ''<Failing>''), [ValueFailed (''app'', ''Failing'')])
   \<and> py_str example_runtime broken_value = Inl (Raised ''ValueError'')
   \<and> fst (format_output_value example_runtime broken_value) = Inl (Raised ''ValueError'')"
proof -
  have s: "py_str example_runtime failing_iterable = Inr ''<Failing>''"
    by (simp add: failing_iterable_def)
  have b: "try_body example_runtime (format_output_value example_runtime) failing_iterable
       = (Inl (Raised ''RuntimeError''), [])"
    by code_simp
  have t: "py_type failing_iterable = (''app'', ''Failing'')"
    by (simp add: failing_iterable_def object_type_def)
  have f: "fst (format_output_value example_runtime broken_value) = Inl (Raised ''ValueError'')"
    by code_simp
  from format_output_value_raises_only_from_str [of example_runtime failing_iterable]
    format_output_value_raises_only_from_str [of example_runtime broken_value]
  show ?thesis using s b t f by simp
qed

lemma is_repeated_container_excluded:
  "v = PyNone \<or> isinstance_str_bytes v \<or> isinstance_Mapping v \<or> isinstance_Message v \<Longrightarrow>
     is_repeated_container rt v = Inr False"
  unfolding is_repeated_container_def by auto

lemma is_repeated_container_probes:
  assumes "v \<noteq> PyNone" "\<not> isinstance_str_bytes v" "\<not> isinstance_Mapping v"
    "\<not> isinstance_Message v"
  shows "is_repeated_container rt v =
     (if upb_repeated_type v then Inr True
      else case py_hasattr rt v ''__iter__'' of
        Inl e \<Rightarrow> Inl e
      | Inr True \<Rightarrow> Inr True
      | Inr False \<Rightarrow>
         (case py_hasattr rt v ''__len__'' of
            Inl e \<Rightarrow> Inl e
          | Inr False \<Rightarrow> Inr False
          | Inr True \<Rightarrow> py_hasattr rt v ''__getitem__''))"
  unfolding is_repeated_container_def upb_repeated_type_def using assms
  by (simp split: sum.splits bool.splits)

lemma message_not_enum: "isinstance_Message v \<Longrightarrow> v \<noteq> PyNone \<and> \<not> isinstance_Enum v"
  by (cases v) simp_all

text \<open>
  C7.  \<^verbatim>\<open>_is_repeated_container\<close> answers False for null, str/bytes, mappings and
  proto-plus messages before any probe: whatever their type name and whatever
  \<^verbatim>\<open>hasattr\<close> would answer or raise.  Hence a proto-plus message that is neither the
  text-asset shorthand nor a mapping is converted by the message rule, never by the
  repeated-container rule, even when it has \<^verbatim>\<open>__iter__\<close>.  For any other value the answer
  is True on the native type signature without any probe; else True when \<^verbatim>\<open>__iter__\<close>
  is present; else, only when \<^verbatim>\<open>__iter__\<close> is absent, whether \<^verbatim>\<open>__len__\<close> and
  \<^verbatim>\<open>__getitem__\<close> are both present; an exception of a probe propagates.
\<close>

theorem repeated_container_detection_order:
  "(v = PyNone \<or> isinstance_str_bytes v \<or> isinstance_Mapping v \<or> isinstance_Message v \<longrightarrow>
      is_repeated_container rt v = Inr False)
   \<and> (isinstance_Message v \<and> \<not> isinstance_Mapping v \<and> is_text_asset rt v = Inr False \<longrightarrow>
      try_body rt F v = convert_message rt F v)
   \<and> (v \<noteq> PyNone \<and> \<not> isinstance_str_bytes v \<and> \<not> isinstance_Mapping v
        \<and> \<not> isinstance_Message v \<longrightarrow>
        (upb_repeated_type v \<longrightarrow> is_repeated_container rt v = Inr True)
      \<and> (\<not> upb_repeated_type v \<and> py_hasattr rt v ''__iter__'' = Inr True \<longrightarrow>
            is_repeated_container rt v = Inr True)
      \<and> (\<forall>e. \<not> upb_repeated_type v \<and> py_hasattr rt v ''__iter__'' = Inl e \<longrightarrow>
            is_repeated_container rt v = Inl e)
      \<and> (\<not> upb_repeated_type v \<and> py_hasattr rt v ''__iter__'' = Inr False \<longrightarrow>
            is_repeated_container rt v =
              (case py_hasattr rt v ''__len__'' of
                 Inl e \<Rightarrow> Inl e
               | Inr False \<Rightarrow> Inr False
               | Inr True \<Rightarrow> py_hasattr rt v ''__getitem__'')))"
proof (intro conjI impI)
  assume "v = PyNone \<or> isinstance_str_bytes v \<or> isinstance_Mapping v \<or> isinstance_Message v"
  then show "is_repeated_container rt v = Inr False" by (rule is_repeated_container_excluded)
next
  assume a: "isinstance_Message v \<and> \<not> isinstance_Mapping v \<and> is_text_asset rt v = Inr False"
  then have "is_repeated_container rt v = Inr False"
    by (simp add: is_repeated_container_excluded)
  then show "try_body rt F v = convert_message rt F v"
    using a message_not_enum [of v] by (simp add: try_body_def)
next
  assume a: "v \<noteq> PyNone \<and> \<not> isinstance_str_bytes v \<and> \<not> isinstance_Mapping v
    \<and> \<not> isinstance_Message v"
  then have eq: "is_repeated_container rt v =
     (if upb_repeated_type v then Inr True
      else case py_hasattr rt v ''__iter__'' of
        Inl e \<Rightarrow> Inl e
      | Inr True \<Rightarrow> Inr True
      | Inr False \<Rightarrow>
         (case py_hasattr rt v ''__len__'' of
            Inl e \<Rightarrow> Inl e
          | Inr False \<Rightarrow> Inr False
          | Inr True \<Rightarrow> py_hasattr rt v ''__getitem__''))"
    by (simp add: is_repeated_container_probes)
  show "upb_repeated_type v \<Longrightarrow> is_repeated_container rt v = Inr True"
    by (simp add: eq)
  show "\<not> upb_repeated_type v \<and> py_hasattr rt v ''__iter__'' = Inr True \<Longrightarrow>
      is_repeated_container rt v = Inr True"
    by (simp add: eq)
  show "\<forall>e. \<not> upb_repeated_type v \<and> py_hasattr rt v ''__iter__'' = Inl e \<longrightarrow>
      is_repeated_container rt v = Inl e"
    by (simp add: eq)
  show "\<not> upb_repeated_type v \<and> py_hasattr rt v ''__iter__'' = Inr False \<Longrightarrow>
      is_repeated_container rt v =
        (case py_hasattr rt v ''__len__'' of
           Inl e \<Rightarrow> Inl e
         | Inr False \<Rightarrow> Inr False
         | Inr True \<Rightarrow> py_hasattr rt v ''__getitem__'')"
    by (simp add: eq)
qed

theorem repeated_container_detection_order_witness:
  "isinstance_Message iterable_message
   \<and> py_hasattr example_runtime iterable_message ''__iter__'' = Inr True
   \<and> is_repeated_container example_runtime iterable_message = Inr False
   \<and> format_output_value example_runtime iterable_message
       = (Inr (PyDict [(PyStr ''id'', PyInt 7)]), [])
   \<and> upb_repeated_type upb_repeated
   \<and> py_hasattr example_runtime upb_repeated ''__iter__'' = Inr False
   \<and> is_repeated_container example_runtime upb_repeated = Inr True
   \<and> \<not> upb_repeated_type example_tuple
   \<and> is_repeated_container example_runtime example_tuple = Inr True
   \<and> is_repeated_container example_runtime (PyInt 3) = Inr False"
proof -
  have m: "isinstance_Message iterable_message" "\<not> isinstance_Mapping iterable_message"
    by (simp_all add: iterable_message_def object_type_def)
  have h: "py_hasattr example_runtime iterable_message ''__iter__'' = Inr True"
    by (simp add: iterable_message_def py_hasattr_def)
  have f: "format_output_value example_runtime iterable_message
       = (Inr (PyDict [(PyStr ''id'', PyInt 7)]), [])"
    by code_simp
  have u: "upb_repeated_type upb_repeated"
    and u0: "upb_repeated \<noteq> PyNone \<and> \<not> isinstance_str_bytes upb_repeated
      \<and> \<not> isinstance_Mapping upb_repeated \<and> \<not> isinstance_Message upb_repeated"
    and uh: "py_hasattr example_runtime upb_repeated ''__iter__'' = Inr False"
    by (simp_all add: upb_repeated_def upb_repeated_type_def object_type_def startswith_def
        py_hasattr_def)
  have t: "\<not> upb_repeated_type example_tuple"
    and t0: "example_tuple \<noteq> PyNone \<and> \<not> isinstance_str_bytes example_tuple
      \<and> \<not> isinstance_Mapping example_tuple \<and> \<not> isinstance_Message example_tuple"
    and th: "py_hasattr example_runtime example_tuple ''__iter__'' = Inr True"
    by (simp_all add: example_tuple_def upb_repeated_type_def object_type_def startswith_def
        py_hasattr_def)
  have i: "is_repeated_container example_runtime (PyInt 3) = Inr False"
    by code_simp
  from repeated_container_detection_order [of iterable_message example_runtime]
    repeated_container_detection_order [of upb_repeated example_runtime]
    repeated_container_detection_order [of example_tuple example_runtime]
  show ?thesis using m h f u u0 uh t t0 th i by simp
qed

section \<open>What the normaliser returns\<close>

lemma scalars_pass_through:
  "passes_through rt (PyBool b)" "passes_through rt (PyInt i)" "passes_through rt (PyFloat r)"
  "passes_through rt (PyStr s)" "passes_through rt (PyBytes s)"
  by (simp_all add: passes_through_def is_text_asset_def is_repeated_container_def
      startswith_def py_hasattr_def sequence_dunders_def)

lemma normalized_settled: "is_normalized v \<Longrightarrow> settled rt v"
proof (induction v rule: is_normalized.induct)
  case (6 xs)
  then show ?case by (simp add: list_all_iff)
next
  case (7 kvs)
  then show ?case by (simp add: list_all_iff)
qed (simp_all add: scalars_pass_through)

lemma update_append: "k \<notin> fst ` set al \<Longrightarrow> AList.update k v al = al @ [(k, v)]"
  by (induction al) auto

lemma list_comp_id:
  "(\<And>x. x \<in> set xs \<Longrightarrow> F x = (Inr x, [])) \<Longrightarrow> list_comp F xs = (Inr xs, [])"
  by (induction xs) simp_all

lemma is_str_str_of: "is_str k \<Longrightarrow> k = PyStr (str_of k)"
  by (cases k) simp_all

lemma dict_comp_id:
  assumes "\<And>kv. kv \<in> set kvs \<Longrightarrow> is_str (fst kv) \<and> F (snd kv) = (Inr (snd kv), [])"
    and "distinct (map fst kvs)"
    and "\<And>kv. kv \<in> set kvs \<Longrightarrow> str_of (fst kv) \<notin> fst ` set out"
  shows "dict_comp rt F kvs out = (Inr (out @ map (\<lambda>kv. (str_of (fst kv), snd kv)) kvs), [])"
  using assms
proof (induction kvs arbitrary: out)
  case Nil
  show ?case by simp
next
  case (Cons kv kvs)
  obtain k x where kv: "kv = (k, x)" by (cases kv)
  have str: "is_str k" and fx: "F x = (Inr x, [])"
    using Cons.prems(1) [of kv] by (simp_all add: kv)
  have k: "k = PyStr (str_of k)" using str by (rule is_str_str_of)
  have pk: "py_str rt k = Inr (str_of k)" by (subst k) simp
  have fresh: "str_of k \<notin> fst ` set out"
    using Cons.prems(3) [of kv] by (simp add: kv)
  have upd: "AList.update (str_of k) x out = out @ [(str_of k, x)]"
    using fresh by (rule update_append)
  have rest: "dict_comp rt F kvs (out @ [(str_of k, x)])
      = (Inr ((out @ [(str_of k, x)]) @ map (\<lambda>kv. (str_of (fst kv), snd kv)) kvs), [])"
  proof (rule Cons.IH)
    fix kv' assume mem: "kv' \<in> set kvs"
    then show "is_str (fst kv') \<and> F (snd kv') = (Inr (snd kv'), [])"
      using Cons.prems(1) [of kv'] by simp
    have ne: "fst kv' \<noteq> k" using Cons.prems(2) mem by (auto simp: kv)
    have "fst kv' = PyStr (str_of (fst kv'))"
      using Cons.prems(1) [of kv'] mem by (simp add: is_str_str_of)
    with ne k have "str_of (fst kv') \<noteq> str_of k" by metis
    moreover have "str_of (fst kv') \<notin> fst ` set out"
      using Cons.prems(3) [of kv'] mem by simp
    ultimately show "str_of (fst kv') \<notin> fst ` set (out @ [(str_of k, x)])" by auto
  next
    show "distinct (map fst kvs)" using Cons.prems(2) by simp
  qed
  show ?case by (simp add: kv pk fx upd rest)
qed

lemma py_dict_roundtrip:
  "(\<And>kv. kv \<in> set kvs \<Longrightarrow> is_str (fst kv)) \<Longrightarrow>
     py_dict (map (\<lambda>kv. (str_of (fst kv), snd kv)) kvs) = PyDict kvs"
proof -
  assume a: "\<And>kv. kv \<in> set kvs \<Longrightarrow> is_str (fst kv)"
  have "map ((\<lambda>(k, v). (PyStr k, v)) \<circ> (\<lambda>kv. (str_of (fst kv), snd kv))) kvs = map (\<lambda>kv. kv) kvs"
  proof (rule map_cong [OF refl])
    fix kv assume "kv \<in> set kvs"
    then have "fst kv = PyStr (str_of (fst kv))" using a by (simp add: is_str_str_of)
    then show "((\<lambda>(k, v). (PyStr k, v)) \<circ> (\<lambda>kv. (str_of (fst kv), snd kv))) kv = kv"
      by (cases kv) simp
  qed
  then show ?thesis by (simp add: py_dict_def)
qed

lemma passes_through_fixed:
  "passes_through rt v \<Longrightarrow> format_output_value rt v = (Inr v, [])"
  by (subst format_output_value.simps) (auto simp: passes_through_def try_body_def)

lemma list_fixed:
  assumes "\<And>x. x \<in> set xs \<Longrightarrow> format_output_value rt x = (Inr x, [])"
  shows "format_output_value rt (PyList xs) = (Inr (PyList xs), [])"
proof -
  have rep: "is_repeated_container rt (PyList xs) = Inr True"
    by (simp add: is_repeated_container_def startswith_def py_hasattr_def sequence_dunders_def)
  have "list_comp (format_output_value rt) xs = (Inr xs, [])"
    using assms by (rule list_comp_id)
  then have "convert_container (format_output_value rt) (PyList xs) = (Inr (PyList xs), [])"
    by (simp add: convert_container_def then_raise_def as_list_def)
  then show ?thesis
    by (subst format_output_value.simps) (simp add: try_body_def is_text_asset_def rep)
qed

lemma dict_fixed:
  assumes "\<And>kv. kv \<in> set kvs \<Longrightarrow>
      is_str (fst kv) \<and> format_output_value rt (snd kv) = (Inr (snd kv), [])"
    and "distinct (map fst kvs)"
  shows "format_output_value rt (PyDict kvs) = (Inr (PyDict kvs), [])"
proof -
  have "dict_comp rt (format_output_value rt) kvs []
      = (Inr ([] @ map (\<lambda>kv. (str_of (fst kv), snd kv)) kvs), [])"
    using assms by (intro dict_comp_id) simp_all
  moreover have "py_dict (map (\<lambda>kv. (str_of (fst kv), snd kv)) kvs) = PyDict kvs"
    using assms(1) by (intro py_dict_roundtrip) simp
  ultimately have "convert_mapping rt (format_output_value rt) (PyDict kvs) = (Inr (PyDict kvs), [])"
    by (simp add: convert_mapping_def then_raise_def as_dict_def)
  then show ?thesis
    by (subst format_output_value.simps) (simp add: try_body_def is_text_asset_def)
qed

lemma settled_fixed: "settled rt w \<Longrightarrow> format_output_value rt w = (Inr w, [])"
proof (induction rt w rule: settled.induct)
  case (1 rt)
  show ?case by (subst format_output_value.simps) (simp add: try_body_def)
next
  case (2 rt xs)
  then show ?case by (intro list_fixed) (simp add: list_all_iff)
next
  case (3 rt kvs)
  then show ?case by (intro dict_fixed) (simp_all add: list_all_iff)
qed (simp_all add: passes_through_fixed)

lemma set_update_cases: "e \<in> set (AList.update k v al) \<Longrightarrow> e = (k, v) \<or> e \<in> set al"
  by (induction al) (auto split: if_splits)

lemma dict_comp_inv:
  assumes "dict_comp rt F kvs out0 = (Inr out, l)"
    and "\<And>kv w l'. kv \<in> set kvs \<Longrightarrow> F (snd kv) = (Inr w, l') \<Longrightarrow> Q w"
    and "\<And>e. e \<in> set out0 \<Longrightarrow> Q (snd e)"
    and "distinct (map fst out0)"
  shows "(\<forall>e \<in> set out. Q (snd e)) \<and> distinct (map fst out)"
  using assms
proof (induction kvs arbitrary: out0 l)
  case Nil
  then show ?case by simp
next
  case (Cons kv kvs)
  obtain k x where kv: "kv = (k, x)" by (cases kv)
  from Cons.prems(1) obtain s where s: "py_str rt k = Inr s"
    by (cases "py_str rt k") (simp_all add: kv)
  from Cons.prems(1) s obtain w l1 where fx: "F x = (Inr w, l1)"
    by (cases "F x") (auto simp: kv split: sum.splits)
  from Cons.prems(1) s fx obtain l2 where
    rest: "dict_comp rt F kvs (AList.update s w out0) = (Inr out, l2)"
    by (cases "dict_comp rt F kvs (AList.update s w out0)") (simp add: kv)
  have qw: "Q w" using Cons.prems(2) [of kv w l1] fx by (simp add: kv)
  show ?case
  proof (rule Cons.IH [OF rest])
    fix kv' w' l' assume "kv' \<in> set kvs" "F (snd kv') = (Inr w', l')"
    then show "Q w'" using Cons.prems(2) [of kv' w' l'] by simp
  next
    fix e assume "e \<in> set (AList.update s w out0)"
    then have "e = (s, w) \<or> e \<in> set out0" by (rule set_update_cases)
    then show "Q (snd e)"
    proof
      assume "e = (s, w)"
      then show ?thesis using qw by simp
    next
      assume "e \<in> set out0"
      then show ?thesis by (rule Cons.prems(3))
    qed
  next
    show "distinct (map fst (AList.update s w out0))"
      using Cons.prems(4) by (rule distinct_update)
  qed
qed

lemma fields_loop_inv:
  assumes "fields_loop F fs out0 = (Inr out, l)"
    and "\<And>f w l'. f \<in> set fs \<Longrightarrow> F (snd f) = (Inr w, l') \<Longrightarrow> Q w"
    and "\<And>e. e \<in> set out0 \<Longrightarrow> Q (snd e)"
    and "distinct (map fst out0)"
  shows "(\<forall>e \<in> set out. Q (snd e)) \<and> distinct (map fst out)"
  using assms
proof (induction fs arbitrary: out0 l)
  case Nil
  then show ?case by simp
next
  case (Cons f fs)
  obtain n x where f: "f = (n, x)" by (cases f)
  from Cons.prems(1) obtain w l1 where fx: "F x = (Inr w, l1)"
    by (cases "F x") (auto simp: f split: sum.splits)
  from Cons.prems(1) fx obtain l2 where
    rest: "fields_loop F fs (AList.update n w out0) = (Inr out, l2)"
    by (cases "fields_loop F fs (AList.update n w out0)") (simp add: f)
  have qw: "Q w" using Cons.prems(2) [of f w l1] fx by (simp add: f)
  show ?case
  proof (rule Cons.IH [OF rest])
    fix f' w' l' assume "f' \<in> set fs" "F (snd f') = (Inr w', l')"
    then show "Q w'" using Cons.prems(2) [of f' w' l'] by simp
  next
    fix e assume "e \<in> set (AList.update n w out0)"
    then have "e = (n, w) \<or> e \<in> set out0" by (rule set_update_cases)
    then show "Q (snd e)"
    proof
      assume "e = (n, w)"
      then show ?thesis using qw by simp
    next
      assume "e \<in> set out0"
      then show ?thesis by (rule Cons.prems(3))
    qed
  next
    show "distinct (map fst (AList.update n w out0))"
      using Cons.prems(4) by (rule distinct_update)
  qed
qed

lemma scan_loop_inv:
  assumes "scan_loop rt F obj names out0 = (Inr out, l)"
    and "\<And>n x w l'. py_getattr rt obj n = Inr x \<Longrightarrow> F x = (Inr w, l') \<Longrightarrow> Q w"
    and "\<And>e. e \<in> set out0 \<Longrightarrow> Q (snd e)"
    and "distinct (map fst out0)"
  shows "(\<forall>e \<in> set out. Q (snd e)) \<and> distinct (map fst out)"
  using assms
proof (induction names arbitrary: out0 l)
  case Nil
  then show ?case by simp
next
  case (Cons a names)
  have IH: "(\<forall>e \<in> set out. Q (snd e)) \<and> distinct (map fst out)"
    if "scan_loop rt F obj names o1 = (Inr out, l1)"
      and "\<And>e. e \<in> set o1 \<Longrightarrow> Q (snd e)" and "distinct (map fst o1)" for o1 l1
    using that(1) Cons.prems(2) that(2,3) by (rule Cons.IH)
  show ?case
  proof (cases "startswith a ''_''")
    case True
    with Cons.prems(1) have "scan_loop rt F obj names out0 = (Inr out, l)" by simp
    then show ?thesis using Cons.prems(3,4) by (rule IH)
  next
    case False
    show ?thesis
    proof (cases "py_getattr rt obj a")
      case (Inl e)
      with False Cons.prems(1) have "scan_loop rt F obj names out0 = (Inr out, l)" by simp
      then show ?thesis using Cons.prems(3,4) by (rule IH)
    next
      case (Inr x)
      show ?thesis
      proof (cases "callable x")
        case True
        with False Inr Cons.prems(1) have "scan_loop rt F obj names out0 = (Inr out, l)" by simp
        then show ?thesis using Cons.prems(3,4) by (rule IH)
      next
        case nc: False
        from Cons.prems(1) False Inr nc obtain w l1 where fx: "F x = (Inr w, l1)"
          by (cases "F x") (auto split: sum.splits)
        from Cons.prems(1) False Inr nc fx obtain l2 where
          rest: "scan_loop rt F obj names (AList.update a w out0) = (Inr out, l2)"
          by (cases "scan_loop rt F obj names (AList.update a w out0)") simp
        have qw: "Q w" using Cons.prems(2) [OF Inr fx] .
        show ?thesis
        proof (rule IH [OF rest])
          fix e assume "e \<in> set (AList.update a w out0)"
          then have "e = (a, w) \<or> e \<in> set out0" by (rule set_update_cases)
          then show "Q (snd e)"
          proof
            assume "e = (a, w)"
            then show ?thesis using qw by simp
          next
            assume "e \<in> set out0"
            then show ?thesis by (rule Cons.prems(3))
          qed
        next
          show "distinct (map fst (AList.update a w out0))"
            using Cons.prems(4) by (rule distinct_update)
        qed
      qed
    qed
  qed
qed

lemma list_comp_inv:
  assumes "list_comp F xs = (Inr ws, l)"
    and "\<And>x w l'. x \<in> set xs \<Longrightarrow> F x = (Inr w, l') \<Longrightarrow> Q w"
  shows "\<forall>w \<in> set ws. Q w"
  using assms
proof (induction xs arbitrary: ws l)
  case Nil
  then show ?case by simp
next
  case (Cons x xs)
  from Cons.prems(1) obtain w l1 where fx: "F x = (Inr w, l1)"
    by (cases "F x") (auto split: sum.splits)
  from Cons.prems(1) fx obtain ws' l2 where rest: "list_comp F xs = (Inr ws', l2)"
    and ws: "ws = w # ws'"
    by (cases "list_comp F xs") (auto split: sum.splits)
  have "Q w" using Cons.prems(2) [of x w l1] fx by simp
  moreover have "\<forall>w \<in> set ws'. Q w"
  proof (rule Cons.IH [OF rest])
    fix x' w' l' assume "x' \<in> set xs" "F x' = (Inr w', l')"
    then show "Q w'" using Cons.prems(2) [of x' w' l'] by simp
  qed
  ultimately show ?case by (simp add: ws)
qed

lemma py_dict_settled:
  assumes "\<forall>e \<in> set out. settled rt (snd e)" and "distinct (map fst out)"
  shows "settled rt (py_dict out)"
proof -
  have "map fst (map (\<lambda>(k, v). (PyStr k, v)) out) = map PyStr (map fst out)"
    by (induction out) auto
  then have "distinct (map fst (map (\<lambda>(k, v). (PyStr k, v)) out))"
    using assms(2) by (simp add: distinct_map inj_on_def)
  then show ?thesis using assms(1) by (auto simp: py_dict_def list_all_iff)
qed

lemma passes_through_settled: "passes_through rt v \<Longrightarrow> settled rt v"
proof (cases v)
  case (PyList xs)
  assume "passes_through rt v"
  then show ?thesis unfolding PyList
    by (simp add: passes_through_def is_repeated_container_def startswith_def py_hasattr_def
        sequence_dunders_def)
next
  case (PyDict kvs)
  assume "passes_through rt v"
  then show ?thesis unfolding PyDict by (simp add: passes_through_def)
qed simp_all

lemma raw_ok_items: "raw_ok rt v \<Longrightarrow> kv \<in> set (fst (py_items v)) \<Longrightarrow> raw_ok rt (snd kv)"
  by (cases v) (auto simp: list_all_iff)

lemma raw_ok_iter:
  "raw_ok rt v \<Longrightarrow> \<not> isinstance_str_bytes v \<Longrightarrow> \<not> isinstance_Mapping v \<Longrightarrow>
     x \<in> set (fst (py_iter v)) \<Longrightarrow> raw_ok rt x"
  by (cases v) (auto simp: list_all_iff)

lemma raw_ok_getattr:
  assumes "raw_ok rt (PyObject ty attrs it items fs d s)"
    and "py_getattr rt (PyObject ty attrs it items fs d s) n = Inr x"
  shows "raw_ok rt x"
proof -
  from assms(2) have "map_of attrs n = Some (Inr x)" by (simp split: option.splits)
  then have "(n, Inr x) \<in> set attrs" by (rule map_of_SomeD)
  moreover from assms(1) have "\<forall>a \<in> set attrs. case snd a of Inr x \<Rightarrow> raw_ok rt x | Inl _ \<Rightarrow> True"
    by (simp add: list_all_iff)
  ultimately show ?thesis by fastforce
qed

lemma raw_ok_ListFields:
  "raw_ok rt pb \<Longrightarrow> py_ListFields pb = Inr fs \<Longrightarrow> f \<in> set fs \<Longrightarrow> raw_ok rt (snd f)"
  by (cases pb) (auto simp: list_all_iff)

lemma raw_ok_text:
  assumes "raw_ok rt v" and "\<not> isinstance_Enum v" and "is_text_asset rt v = Inr True"
    and "py_getattr rt v ''text'' = Inr t"
  shows "settled rt t"
proof (cases v)
  case (PyObject ty attrs it items fs d s)
  from assms(3) have "ty_name ty = ''AdTextAsset''"
    unfolding PyObject by (simp add: is_text_asset_def split: if_splits)
  moreover from assms(4) have "map_of attrs ''text'' = Some (Inr t)"
    unfolding PyObject by (simp split: option.splits)
  ultimately show ?thesis using assms(1) unfolding PyObject by simp
qed (use assms(2,3) in \<open>simp_all add: is_text_asset_def\<close>)

lemma raw_ok_to_dict:
  "raw_ok rt v \<Longrightarrow> isinstance_ProtobufMessage v \<Longrightarrow> MessageToDict v = Inr d \<Longrightarrow> settled rt d"
  by (cases v) auto

lemma convert_mapping_settled:
  assumes "convert_mapping rt F v = (Inr w, l)" and "raw_ok rt v"
    and IH: "\<And>x w l. size x < size v \<Longrightarrow> raw_ok rt x \<Longrightarrow> F x = (Inr w, l) \<Longrightarrow> settled rt w"
  shows "settled rt w"
proof -
  from assms(1) obtain out l1 where dc: "dict_comp rt F (fst (py_items v)) [] = (Inr out, l1)"
    and w: "w = py_dict out"
    by (cases "dict_comp rt F (fst (py_items v)) []")
       (auto simp: convert_mapping_def then_raise_def as_dict_def split: sum.splits option.splits)
  have "(\<forall>e \<in> set out. settled rt (snd e)) \<and> distinct (map fst out)"
  proof (rule dict_comp_inv [OF dc])
    fix kv w' l' assume mem: "kv \<in> set (fst (py_items v))" and f: "F (snd kv) = (Inr w', l')"
    from mem have "size (snd kv) < size v" using size_items [of "fst kv" "snd kv" v] by simp
    moreover have "raw_ok rt (snd kv)" using assms(2) mem by (rule raw_ok_items)
    ultimately show "settled rt w'" using f by (rule IH)
  qed simp_all
  then show ?thesis unfolding w by (intro py_dict_settled) simp_all
qed

lemma convert_container_settled:
  assumes "convert_container F v = (Inr w, l)" and "raw_ok rt v"
    and rep: "is_repeated_container rt v = Inr True"
    and IH: "\<And>x w l. size x < size v \<Longrightarrow> raw_ok rt x \<Longrightarrow> F x = (Inr w, l) \<Longrightarrow> settled rt w"
  shows "settled rt w"
proof -
  from assms(1) obtain ws l1 where lc: "list_comp F (fst (py_iter v)) = (Inr ws, l1)"
    and w: "w = PyList ws"
    by (cases "list_comp F (fst (py_iter v))")
       (auto simp: convert_container_def then_raise_def as_list_def split: sum.splits option.splits)
  note ex = is_repeated_container_TrueD [OF rep]
  have "\<forall>w \<in> set ws. settled rt w"
  proof (rule list_comp_inv [OF lc])
    fix x w' l' assume mem: "x \<in> set (fst (py_iter v))" and f: "F x = (Inr w', l')"
    from ex mem have "size x < size v" by (simp add: size_iter)
    moreover have "raw_ok rt x" using assms(2) ex mem by (simp add: raw_ok_iter)
    ultimately show "settled rt w'" using f by (rule IH)
  qed
  then show ?thesis unfolding w by (simp add: list_all_iff)
qed

lemma convert_message_settled:
  assumes cm: "convert_message rt F v = (Inr w, l)" and ok: "raw_ok rt v"
    and msg: "isinstance_Message v"
    and IH: "\<And>x w l. size x < size v \<Longrightarrow> raw_ok rt x \<Longrightarrow> F x = (Inr w, l) \<Longrightarrow> settled rt w"
  shows "settled rt w"
proof -
  from msg obtain ty attrs it items fs d s where v: "v = PyObject ty attrs it items fs d s"
    by (cases v) simp_all
  have attr: "size x < size v \<and> raw_ok rt x" if "py_getattr rt v n = Inr x" for n x
  proof
    from that have g: "py_getattr rt (PyObject ty attrs it items fs d s) n = Inr x"
      unfolding v .
    show "size x < size v" unfolding v using g by (rule size_getattr)
    show "raw_ok rt x" using ok [unfolded v] g by (rule raw_ok_getattr)
  qed
  from cm obtain pb where pb: "py_getattr_default rt v ''_pb'' PyNone = Inr pb"
    by (cases "py_getattr_default rt v ''_pb'' PyNone") (simp_all add: convert_message_def)
  from cm pb obtain has where has:
    "(if pb \<noteq> PyNone then py_hasattr rt pb ''ListFields'' else Inr False) = Inr has"
    by (cases "if pb \<noteq> PyNone then py_hasattr rt pb ''ListFields'' else Inr False")
       (simp_all add: convert_message_def)
  show ?thesis
  proof (cases has)
    case True
    with has have ne: "pb \<noteq> PyNone" by (auto split: if_splits)
    from pb ne have g: "py_getattr rt v ''_pb'' = Inr pb"
      by (simp add: py_getattr_default_def split: sum.splits exn.splits)
    from cm pb has True obtain fl where fl: "py_ListFields pb = Inr fl"
      by (cases "py_ListFields pb") (simp_all add: convert_message_def)
    from cm pb has True fl obtain out l1 where lp: "fields_loop F fl [] = (Inr out, l1)"
      and w: "w = py_dict out"
      by (cases "fields_loop F fl []")
         (auto simp: convert_message_def as_dict_def split: sum.splits)
    have "(\<forall>e \<in> set out. settled rt (snd e)) \<and> distinct (map fst out)"
    proof (rule fields_loop_inv [OF lp])
      fix f w' l' assume mem: "f \<in> set fl" and fx: "F (snd f) = (Inr w', l')"
      from fl mem have "size (snd f) < size pb" using size_ListFields [of pb fl "fst f" "snd f"] by simp
      with attr [OF g] have "size (snd f) < size v" by simp
      moreover have "raw_ok rt (snd f)" using attr [OF g] fl mem by (auto intro: raw_ok_ListFields)
      ultimately show "settled rt w'" using fx by (rule IH)
    qed simp_all
    then show ?thesis unfolding w by (intro py_dict_settled) simp_all
  next
    case False
    from cm pb has False obtain out l1 where lp: "scan_loop rt F v (py_dir v) [] = (Inr out, l1)"
      and w: "w = py_dict out"
      by (cases "scan_loop rt F v (py_dir v) []")
         (auto simp: convert_message_def as_dict_def split: sum.splits)
    have "(\<forall>e \<in> set out. settled rt (snd e)) \<and> distinct (map fst out)"
    proof (rule scan_loop_inv [OF lp])
      fix n x w' l' assume g: "py_getattr rt v n = Inr x" and fx: "F x = (Inr w', l')"
      from attr [OF g] have "size x < size v" "raw_ok rt x" by simp_all
      then show "settled rt w'" using fx by (rule IH)
    qed simp_all
    then show ?thesis unfolding w by (intro py_dict_settled) simp_all
  qed
qed

lemma try_body_settled:
  assumes tb: "try_body rt F v = (Inr w, l)" and ok: "raw_ok rt v"
    and IH: "\<And>x w l. size x < size v \<Longrightarrow> raw_ok rt x \<Longrightarrow> F x = (Inr w, l) \<Longrightarrow> settled rt w"
  shows "settled rt w"
proof (cases "v = PyNone \<or> isinstance_Enum v")
  case True
  show ?thesis
  proof (cases "v = PyNone")
    case True
    with tb have "w = PyNone" by (simp add: try_body_def)
    then show ?thesis by simp
  next
    case False
    with True tb have "w = PyStr (enum_name v)" by (simp add: try_body_def)
    then show ?thesis by (simp add: scalars_pass_through)
  qed
next
  case nn: False
  from tb nn obtain ta where ta: "is_text_asset rt v = Inr ta"
    by (cases "is_text_asset rt v") (simp_all add: try_body_def)
  show ?thesis
  proof (cases ta)
    case True
    with tb nn ta have "py_getattr rt v ''text'' = Inr w" by (simp add: try_body_def)
    with ok nn ta True show ?thesis by (auto intro: raw_ok_text)
  next
    case nta: False
    show ?thesis
    proof (cases "isinstance_Mapping v")
      case True
      with tb nn ta nta have "convert_mapping rt F v = (Inr w, l)" by (simp add: try_body_def)
      then show ?thesis using ok IH by (rule convert_mapping_settled)
    next
      case nm: False
      from tb nn ta nta nm obtain rep where rep: "is_repeated_container rt v = Inr rep"
        by (cases "is_repeated_container rt v") (simp_all add: try_body_def)
      show ?thesis
      proof (cases rep)
        case True
        with tb nn ta nta nm rep have "convert_container F v = (Inr w, l)"
          by (simp add: try_body_def)
        moreover from rep True have "is_repeated_container rt v = Inr True" by simp
        ultimately show ?thesis using ok IH by (intro convert_container_settled [of F v w l rt])
      next
        case nr: False
        show ?thesis
        proof (cases "isinstance_Message v")
          case True
          with tb nn ta nta nm rep nr have "convert_message rt F v = (Inr w, l)"
            by (simp add: try_body_def)
          then show ?thesis using ok True IH by (rule convert_message_settled)
        next
          case nmsg: False
          show ?thesis
          proof (cases "rt_protobuf rt \<and> isinstance_ProtobufMessage v")
            case True
            with tb nn ta nta nm rep nr nmsg have "MessageToDict v = Inr w"
              by (simp add: try_body_def)
            with ok True show ?thesis by (auto intro: raw_ok_to_dict)
          next
            case False
            with tb nn ta nta nm rep nr nmsg have "w = v" by (auto simp: try_body_def)
            moreover have "passes_through rt v"
              using nn ta nta nm rep nr nmsg False by (simp add: passes_through_def)
            ultimately show ?thesis by (simp add: passes_through_settled)
          qed
        qed
      qed
    qed
  qed
qed

lemma format_output_value_settled:
  "format_output_value rt v = (Inr w, l) \<Longrightarrow> raw_ok rt v \<Longrightarrow> settled rt w"
proof (induction rt v arbitrary: w l rule: format_output_value.induct)
  case (1 rt v)
  show ?case
  proof (cases "try_body rt (format_output_value rt) v")
    case (Pair r l0)
    show ?thesis
    proof (cases r)
      case (Inl e)
      with Pair "1.prems"(1) obtain s where "w = PyStr s"
        by (auto simp: format_output_value_body_raises split: sum.splits)
      then show ?thesis by (simp add: scalars_pass_through)
    next
      case (Inr r')
      with Pair "1.prems"(1) have "try_body rt (format_output_value rt) v = (Inr w, l0)"
        by (simp add: format_output_value_body_ok)
      then show ?thesis using "1.prems"(2)
      proof (rule try_body_settled)
        fix x w' l' assume "size x < size v" "raw_ok rt x" "format_output_value rt x = (Inr w', l')"
        then show "settled rt w'" using "1.IH" by blast
      qed
    qed
  qed
qed

text \<open>
  C2: the code does not do what the claim and its own docstring say.  A \<^verbatim>\<open>bytes\<close> value
  is excluded from the repeated containers (line 112) and matches no other rule, so the
  last branch returns it unchanged, for every runtime; bytes are not a Normalized Value
  (and not JSON-serialisable).  The same happens to a bytes field inside a message: the
  result is a dict holding the bytes.
\<close>

theorem format_output_value_returns_bytes:
  "format_output_value rt (PyBytes data) = (Inr (PyBytes data), [])
   \<and> \<not> is_normalized (PyBytes data)
   \<and> format_output_value example_runtime image_asset
       = (Inr (PyDict [(PyStr ''data'', PyBytes ''PNG'')]), [])
   \<and> \<not> is_normalized (PyDict [(PyStr ''data'', PyBytes ''PNG'')])"
proof (intro conjI)
  show "format_output_value rt (PyBytes data) = (Inr (PyBytes data), [])"
    by (rule passes_through_fixed) (rule scalars_pass_through)
  show "format_output_value example_runtime image_asset
       = (Inr (PyDict [(PyStr ''data'', PyBytes ''PNG'')]), [])"
    by code_simp
qed simp_all

text \<open>
  C8 (as stated) fails.  The text of a text-asset shorthand is returned without being
  normalised (line 203): for an object of a class named \<^verbatim>\<open>AdTextAsset\<close> whose
  \<^verbatim>\<open>text\<close> is an enum member, the first pass returns the member and the second pass
  returns its name.
\<close>

theorem format_output_value_not_idempotent_counterexample:
  "format_output_value example_runtime odd_text_asset
     = (Inr (PyEnum ''google.ads'' ''ServedAssetFieldType'' ''HEADLINE_1'' 2), [])
   \<and> format_output_value example_runtime
       (PyEnum ''google.ads'' ''ServedAssetFieldType'' ''HEADLINE_1'' 2)
     = (Inr (PyStr ''HEADLINE_1''), [])
   \<and> PyStr ''HEADLINE_1'' \<noteq> PyEnum ''google.ads'' ''ServedAssetFieldType'' ''HEADLINE_1'' 2"
proof (intro conjI)
  show "format_output_value example_runtime odd_text_asset
     = (Inr (PyEnum ''google.ads'' ''ServedAssetFieldType'' ''HEADLINE_1'' 2), [])"
    by code_simp
  show "format_output_value example_runtime
       (PyEnum ''google.ads'' ''ServedAssetFieldType'' ''HEADLINE_1'' 2)
     = (Inr (PyStr ''HEADLINE_1''), [])"
    by code_simp
qed simp

text \<open>
  C8 (amended).  Let \<^verbatim>\<open>format_output_value(v)\<close> return \<open>w\<close>.  If in \<open>v\<close> the text of
  every text-asset shorthand and every \<^verbatim>\<open>MessageToDict\<close> result is a value the
  normaliser leaves unchanged (null, a value that passes through such as a string, or a
  list or string-keyed dict of these), then \<^verbatim>\<open>format_output_value(w)\<close> returns \<open>w\<close> and
  logs nothing: the second pass equals the first.  The same holds whenever \<open>w\<close> itself is
  of that form, in particular whenever \<open>w\<close> is a Normalized Value.
\<close>

theorem format_output_value_idempotent:
  "(format_output_value rt v = (Inr w, l) \<and> raw_ok rt v \<longrightarrow>
      format_output_value rt w = (Inr w, []))
   \<and> (format_output_value rt v = (Inr w, l) \<and> settled rt w \<longrightarrow>
      format_output_value rt w = (Inr w, []))
   \<and> (is_normalized w \<longrightarrow> format_output_value rt w = (Inr w, []))"
proof (intro conjI impI)
  assume "format_output_value rt v = (Inr w, l) \<and> raw_ok rt v"
  then have "settled rt w" by (auto intro: format_output_value_settled)
  then show "format_output_value rt w = (Inr w, [])" by (rule settled_fixed)
next
  assume "format_output_value rt v = (Inr w, l) \<and> settled rt w"
  then show "format_output_value rt w = (Inr w, [])" by (simp add: settled_fixed)
next
  assume "is_normalized w"
  then have "settled rt w" by (rule normalized_settled)
  then show "format_output_value rt w = (Inr w, [])" by (rule settled_fixed)
qed

theorem format_output_value_idempotent_witness:
  "raw_ok example_runtime mixed_values
   \<and> format_output_value example_runtime mixed_values
       = (Inr (PyList [PyStr ''Buy Now'', PyStr ''ENABLED'',
                  PyDict [(PyStr ''data'', PyBytes ''PNG'')],
                  PyList [PyInt 1, PyInt 2, PyInt 3], PyNone, PyFloat ''0.5'']), [])
   \<and> format_output_value example_runtime
         (PyList [PyStr ''Buy Now'', PyStr ''ENABLED'',
                  PyDict [(PyStr ''data'', PyBytes ''PNG'')],
                  PyList [PyInt 1, PyInt 2, PyInt 3], PyNone, PyFloat ''0.5''])
       = (Inr (PyList [PyStr ''Buy Now'', PyStr ''ENABLED'',
                  PyDict [(PyStr ''data'', PyBytes ''PNG'')],
                  PyList [PyInt 1, PyInt 2, PyInt 3], PyNone, PyFloat ''0.5'']), [])
   \<and> is_normalized (PyList [PyInt 1, PyStr ''a''])
   \<and> format_output_value example_runtime (PyList [PyInt 1, PyStr ''a''])
       = (Inr (PyList [PyInt 1, PyStr ''a'']), [])"
proof -
  have r: "raw_ok example_runtime mixed_values"
    by code_simp
  have f: "format_output_value example_runtime mixed_values
       = (Inr (PyList [PyStr ''Buy Now'', PyStr ''ENABLED'',
                  PyDict [(PyStr ''data'', PyBytes ''PNG'')],
                  PyList [PyInt 1, PyInt 2, PyInt 3], PyNone, PyFloat ''0.5'']), [])"
    by code_simp
  have n: "is_normalized (PyList [PyInt 1, PyStr ''a''])"
    by simp
  from format_output_value_idempotent [of example_runtime mixed_values _ "[]"]
    format_output_value_idempotent [of example_runtime v "PyList [PyInt 1, PyStr ''a'']" l]
  show ?thesis using r f n by simp
qed

end
